theory Spec2Isabelle
  imports Main "HOL-Library.Word"
begin

unbundle bit_operations_syntax

section \<open>Operator runners of optest: a shallow embedding\<close>

text \<open>
  The examples of the repository are three small executables (\<^verbatim>\<open>matmul_runner\<close>,
  \<^verbatim>\<open>add_custom\<close>, \<^verbatim>\<open>custom_square\<close>). Each reads raw tensors from binary files,
  runs a kernel and writes the result. The definitions below follow
  \<^verbatim>\<open>matmul_cpp/operator/matmul_runner.cpp\<close>, \<^verbatim>\<open>matmul_cpp/operator/matmul_kernel.cpp\<close>
  and \<^verbatim>\<open>operator_cpp/operator/op_runner.cpp\<close>.

  Conventions of the embedding:
  \<^item> \<^verbatim>\<open>int64_t\<close> is \<open>64 word\<close>; \<open>+\<close> and \<open>*\<close> wrap modulo \<open>2 ^ 64\<close>, \<open>sint\<close> reads the
    signed value, and \<open>unat\<close> is \<^verbatim>\<open>static_cast<size_t>\<close>;
  \<^item> a \<^verbatim>\<open>size_t\<close> is a \<open>nat\<close> below \<open>2 ^ 64\<close>, with the wrap-around of index arithmetic
    written out (\<open>sz\<close>);
  \<^item> every \<^verbatim>\<open>throw std::runtime_error(...)\<close> is a constructor of \<open>runtime_error\<close>,
    one per throw site, and a function that can throw returns \<open>runtime_error + 'a\<close>;
  \<^item> an exception of the library that \<^verbatim>\<open>main\<close> catches (\<^verbatim>\<open>std::length_error\<close>,
    \<^verbatim>\<open>std::bad_alloc\<close>, \<^verbatim>\<open>std::filesystem::filesystem_error\<close>) is a constructor as well;
  \<^item> an access outside a buffer, which C++ leaves undefined, is the constructor
    \<open>OutOfBounds\<close>, so a result \<open>Inr\<close> also says that no such access happened.
\<close>

subsection \<open>Errors\<close>

text \<open>
  One constructor per throw site, named after the message, and one per exception that
  the library throws. \<open>OutOfBounds\<close> is not thrown by the program: it marks a read or
  write outside a buffer in the kernel.
\<close>

datatype runtime_error =
    FailedToOpen string                \<comment> \<open>\<^verbatim>\<open>"failed to open " + path\<close>\<close>
  | FileSizeNotAligned string          \<comment> \<open>\<^verbatim>\<open>"file size not aligned to dtype for " + path\<close>\<close>
  | FailedToRead string                \<comment> \<open>\<^verbatim>\<open>"failed to read " + path\<close>\<close>
  | CreateDirectoriesFailed string     \<comment> \<open>\<^verbatim>\<open>std::filesystem::filesystem_error\<close>\<close>
  | FailedToOpenForWrite string        \<comment> \<open>\<^verbatim>\<open>"failed to open " + path + " for write"\<close>\<close>
  | FailedToWrite string               \<comment> \<open>\<^verbatim>\<open>"failed to write " + path\<close>\<close>
  | InputSizesDoNotMatchShapes         \<comment> \<open>\<^verbatim>\<open>"input sizes do not match shapes"\<close>\<close>
  | InputSizesDiffer                   \<comment> \<open>\<^verbatim>\<open>"input sizes differ"\<close>\<close>
  | ShapesTooFew                       \<comment> \<open>\<^verbatim>\<open>"shapes must include at least two input shapes"\<close>\<close>
  | ShapeKMismatch                     \<comment> \<open>\<^verbatim>\<open>"shape mismatch: input0 k != input1 k"\<close>\<close>
  | OutputShapeMismatch                \<comment> \<open>\<^verbatim>\<open>"output shape does not match matmul result"\<close>\<close>
  | UnsupportedDtype string            \<comment> \<open>\<^verbatim>\<open>"unsupported dtype: " + opts.dtype\<close>\<close>
  | ShapesRequired                     \<comment> \<open>\<^verbatim>\<open>"--shapes is required"\<close>\<close>
  | LengthError                        \<comment> \<open>\<^verbatim>\<open>std::length_error\<close> of the vector constructor\<close>
  | BadAlloc                           \<comment> \<open>\<^verbatim>\<open>std::bad_alloc\<close>\<close>
  | OutOfBounds

text \<open>The error kinds of the specification, and the kind of each throw site.\<close>

datatype error_kind =
    IOError | SizeMismatchError | UnsupportedDtypeError | ShapeFormatError
  | ShapeMismatchError | UsageError | AllocationError | UndefinedBehaviour

fun kind :: "runtime_error \<Rightarrow> error_kind" where
  "kind (FailedToOpen p) = IOError"
| "kind (FileSizeNotAligned p) = SizeMismatchError"
| "kind (FailedToRead p) = IOError"
| "kind (CreateDirectoriesFailed p) = IOError"
| "kind (FailedToOpenForWrite p) = IOError"
| "kind (FailedToWrite p) = IOError"
| "kind InputSizesDoNotMatchShapes = SizeMismatchError"
| "kind InputSizesDiffer = SizeMismatchError"
| "kind ShapesTooFew = ShapeFormatError"
| "kind ShapeKMismatch = ShapeMismatchError"
| "kind OutputShapeMismatch = ShapeMismatchError"
| "kind (UnsupportedDtype t) = UnsupportedDtypeError"
| "kind ShapesRequired = UsageError"
| "kind LengthError = AllocationError"
| "kind BadAlloc = AllocationError"
| "kind OutOfBounds = UndefinedBehaviour"

subsection \<open>The shape parser\<close>

type_synonym int64 = "64 word"

text \<open>\<^verbatim>\<open>c >= '0' && c <= '9'\<close>, on the code of the character.\<close>

definition is_digit :: "char \<Rightarrow> bool" where
  "is_digit c \<longleftrightarrow> (48::nat) \<le> of_char c \<and> of_char c \<le> (57::nat)"

text \<open>\<^verbatim>\<open>static_cast<int64_t>(c - '0')\<close>, used on digits only.\<close>

definition digit :: "char \<Rightarrow> int64" where
  "digit c = of_nat (of_char c - 48)"

text \<open>
  The loop of \<^verbatim>\<open>extract_numbers\<close> over the characters of the text. Its state is the
  vector \<open>values\<close>, the accumulator \<open>current\<close> and the flag \<open>in_number\<close>; the first
  equation is the flush after the loop.
\<close>

fun extract_loop :: "string \<Rightarrow> int64 list \<Rightarrow> int64 \<Rightarrow> bool \<Rightarrow> int64 list" where
  "extract_loop [] values current in_number =
     (if in_number then values @ [current] else values)"
| "extract_loop (c # cs) values current in_number =
     (if is_digit c then extract_loop cs values (current * 10 + digit c) True
      else if in_number then extract_loop cs (values @ [current]) 0 False
      else extract_loop cs values current in_number)"

definition extract_numbers :: "string \<Rightarrow> int64 list" where
  "extract_numbers text = extract_loop text [] 0 False"

record MatmulShape =
  m :: int64
  k :: int64
  n :: int64

definition parse_shapes :: "string \<Rightarrow> runtime_error + MatmulShape" where
  "parse_shapes shapes_json =
     (let nums = extract_numbers shapes_json in
      if length nums < 4 then Inl ShapesTooFew
      else
        let m0 = nums ! 0; k0 = nums ! 1; k2 = nums ! 2; n0 = nums ! 3 in
        if k0 \<noteq> k2 then Inl ShapeKMismatch
        else if length nums \<ge> 6
                \<and> (let out_m = nums ! 4; out_n = nums ! 5 in out_m \<noteq> m0 \<or> out_n \<noteq> n0)
        then Inl OutputShapeMismatch
        else Inr \<lparr>m = m0, k = k0, n = n0\<rparr>)"

text \<open>
  The reading of a digit run that the specification describes: the maximal runs of
  digits of a text, in order, and the value of one run by \<open>value = value * 10 + digit\<close>
  in 64 bits. \<open>decimal\<close> is the number a run denotes, without a width.
\<close>

function digit_runs :: "string \<Rightarrow> string list" where
  "digit_runs s =
     (let t = dropWhile (\<lambda>c. \<not> is_digit c) s in
      if t = [] then [] else takeWhile is_digit t # digit_runs (dropWhile is_digit t))"
  by pat_completeness auto
termination
proof (relation "measure length")
  show "wf (measure length)" by simp
next
  fix s t :: string
  assume t: "t = dropWhile (\<lambda>c. \<not> is_digit c) s" and ne: "t \<noteq> []"
  from t ne have "is_digit (hd t)"
    using hd_dropWhile [of "\<lambda>c. \<not> is_digit c" s] by auto
  with ne have "length (dropWhile is_digit t) < length t"
    by (cases t) (auto intro: le_imp_less_Suc length_dropWhile_le)
  also have "length t \<le> length s"
    unfolding t by (rule length_dropWhile_le)
  finally show "(dropWhile is_digit t, s) \<in> measure length" by simp
qed

declare digit_runs.simps [simp del]

definition run_value :: "string \<Rightarrow> int64" where
  "run_value ds = foldl (\<lambda>v c. v * 10 + digit c) 0 ds"

definition decimal :: "string \<Rightarrow> nat" where
  "decimal ds = foldl (\<lambda>v c. v * 10 + (of_char c - 48)) 0 ds"

definition fails_with :: "runtime_error + 'a \<Rightarrow> error_kind \<Rightarrow> bool" where
  "fails_with r e = (case r of Inl err \<Rightarrow> kind err = e | Inr v \<Rightarrow> False)"

subsection \<open>Element types\<close>

text \<open>
  Both element types of the runners, \<^verbatim>\<open>float\<close> and \<^verbatim>\<open>int32_t\<close>, occupy four bytes. An
  element is modelled by its 32 bits: the two's complement value of an \<^verbatim>\<open>int32_t\<close>, the
  IEEE bit pattern of a \<^verbatim>\<open>float\<close>. What the program takes from the platform it is
  compiled for is a parameter: the byte order, and the addition and multiplication of
  \<^verbatim>\<open>float\<close> (as functions on bit patterns). Arithmetic on \<^verbatim>\<open>int32_t\<close> wraps modulo
  \<open>2 ^ 32\<close>.
\<close>

type_synonym byte = "8 word"
type_synonym elem = "32 word"

record platform =
  little_endian :: bool
  fadd :: "elem \<Rightarrow> elem \<Rightarrow> elem"
  fmul :: "elem \<Rightarrow> elem \<Rightarrow> elem"

text \<open>
  A template argument \<^verbatim>\<open>T\<close>: \<^verbatim>\<open>sizeof(T)\<close>, the object representation of a value
  (\<^verbatim>\<open>reinterpret_cast<char*>\<close>) and back, \<^verbatim>\<open>static_cast<T>(0)\<close>, \<^verbatim>\<open>+\<close> and \<^verbatim>\<open>*\<close>.
\<close>

record 'a elem_type =
  sizeof :: nat
  to_bytes :: "'a \<Rightarrow> byte list"
  of_bytes :: "byte list \<Rightarrow> 'a"
  t_zero :: 'a
  t_add :: "'a \<Rightarrow> 'a \<Rightarrow> 'a"
  t_mul :: "'a \<Rightarrow> 'a \<Rightarrow> 'a"

definition le_bytes :: "elem \<Rightarrow> byte list" where
  "le_bytes w = [ucast w, ucast (drop_bit 8 w), ucast (drop_bit 16 w), ucast (drop_bit 24 w)]"

fun le_word :: "byte list \<Rightarrow> elem" where
  "le_word [b0, b1, b2, b3] =
     ucast b0 OR push_bit 8 (ucast b1) OR push_bit 16 (ucast b2) OR push_bit 24 (ucast b3)"
| "le_word bs = 0"

definition native_bytes :: "platform \<Rightarrow> elem \<Rightarrow> byte list" where
  "native_bytes P w = (if little_endian P then le_bytes w else rev (le_bytes w))"

definition native_word :: "platform \<Rightarrow> byte list \<Rightarrow> elem" where
  "native_word P bs = (if little_endian P then le_word bs else le_word (rev bs))"

definition float32 :: "platform \<Rightarrow> elem elem_type" where
  "float32 P = \<lparr>sizeof = 4, to_bytes = native_bytes P, of_bytes = native_word P,
     t_zero = 0, t_add = fadd P, t_mul = fmul P\<rparr>"

definition int32_t :: "platform \<Rightarrow> elem elem_type" where
  "int32_t P = \<lparr>sizeof = 4, to_bytes = native_bytes P, of_bytes = native_word P,
     t_zero = 0, t_add = (+), t_mul = (*)\<rparr>"

subsection \<open>Dtype dispatch\<close>

text \<open>
  The source has no function that resolves a dtype tag: every \<^verbatim>\<open>main\<close> branches on the
  string \<^verbatim>\<open>opts.dtype\<close> (see \<open>matmul_main\<close> and \<open>add_main\<close> below). \<open>resolve\<close> is the
  resolution that the specification describes, in its words: an exact match against
  \<open>float32\<close> and \<open>int32\<close>, and an error that carries the tag otherwise. \<open>instantiate\<close> is
  the element type that a tag selects. The claims compare the two \<^verbatim>\<open>main\<close> functions with
  them.
\<close>

datatype DtypeTag = Float32 | Int32

definition resolve :: "string \<Rightarrow> runtime_error + DtypeTag" where
  "resolve tag =
     (if tag = ''float32'' then Inr Float32
      else if tag = ''int32'' then Inr Int32
      else Inl (UnsupportedDtype tag))"

fun instantiate :: "platform \<Rightarrow> DtypeTag \<Rightarrow> elem elem_type" where
  "instantiate P Float32 = float32 P"
| "instantiate P Int32 = int32_t P"

subsection \<open>Files\<close>

text \<open>
  The file system as the runners see it: the content of each file that can be opened for
  reading, and for each path whether \<^verbatim>\<open>create_directories\<close> of its parent succeeds,
  whether it can be opened for writing, and how many bytes a write to it stores before
  it fails. \<open>stream_buffer\<close> belongs to the output streams: a write of fewer bytes than
  this stays in the buffer of the stream and reaches the file only when the stream is
  destroyed.
\<close>

record filesystem =
  files :: "string \<rightharpoonup> byte list"
  can_mkdir :: "string \<Rightarrow> bool"
  can_create :: "string \<Rightarrow> bool"
  room :: "string \<Rightarrow> nat"
  stream_buffer :: nat

text \<open>
  \<^verbatim>\<open>istream::read\<close> of \<open>count\<close> bytes at a position of a stream: the bytes, or \<open>None\<close>
  (the stream fails) when the end of the file comes first.
\<close>

definition istream_read :: "byte list \<Rightarrow> nat \<Rightarrow> nat \<Rightarrow> byte list option" where
  "istream_read content pos count =
     (if pos + count \<le> length content then Some (take count (drop pos content)) else None)"

text \<open>
  The bytes of a \<^verbatim>\<open>std::vector<T>\<close> in memory, and the vector of \<open>cnt\<close> elements whose
  memory holds given bytes: element \<open>i\<close> occupies the bytes from \<open>i * sizeof(T)\<close>.
\<close>

definition bytes_of :: "'a elem_type \<Rightarrow> 'a list \<Rightarrow> byte list" where
  "bytes_of T buf = concat (map (to_bytes T) buf)"

definition elements_of :: "'a elem_type \<Rightarrow> nat \<Rightarrow> byte list \<Rightarrow> 'a list" where
  "elements_of T cnt bytes =
     map (\<lambda>i. of_bytes T (take (sizeof T) (drop (i * sizeof T) bytes))) [0..<cnt]"

text \<open>
  \<^verbatim>\<open>read_file<T>\<close>, the same text in the three runners. \<open>size\<close> is what \<^verbatim>\<open>tellg\<close> returns
  at the end of the file. A file that can be opened is taken to fit in memory: the
  vector of its elements is allocated.
\<close>

definition read_file :: "'a elem_type \<Rightarrow> filesystem \<Rightarrow> string \<Rightarrow> runtime_error + 'a list" where
  "read_file T fs path =
     (case files fs path of
        None \<Rightarrow> Inl (FailedToOpen path)
      | Some content \<Rightarrow>
          let size = length content in
          if size mod sizeof T \<noteq> 0 then Inl (FileSizeNotAligned path)
          else
            (case istream_read content 0 size of
               None \<Rightarrow> Inl (FailedToRead path)
             | Some bytes \<Rightarrow> Inr (elements_of T (size div sizeof T) bytes)))"

text \<open>
  The body that the two \<^verbatim>\<open>write_file<T>\<close> share: open with truncation, \<^verbatim>\<open>file.write\<close>,
  then the test \<^verbatim>\<open>if (!file)\<close>, with no flush or close between them; the destructor of
  the stream flushes at the end and reports nothing. A short write leaves the bytes that
  were stored in the file. It is seen by the test, and thrown, only when the bytes did
  not stay in the buffer of the stream; a buffered write that fails in the destructor
  returns normally.
\<close>

definition ofstream_write ::
  "'a elem_type \<Rightarrow> filesystem \<Rightarrow> string \<Rightarrow> 'a list \<Rightarrow> (runtime_error + unit) \<times> filesystem" where
  "ofstream_write T fs path data =
     (if \<not> can_create fs path then (Inl (FailedToOpenForWrite path), fs)
      else
        let bytes = bytes_of T data;
            stored = take (room fs path) bytes;
            fs' = fs\<lparr>files := (files fs)(path \<mapsto> stored)\<rparr>;
            buffered = (length bytes < stream_buffer fs)
        in if \<not> buffered \<and> length stored < length bytes then (Inl (FailedToWrite path), fs')
           else (Inr (), fs'))"

text \<open>\<^verbatim>\<open>write_file<T>\<close> of \<^verbatim>\<open>matmul_runner.cpp\<close> creates the parent directories first.\<close>

definition write_file ::
  "'a elem_type \<Rightarrow> filesystem \<Rightarrow> string \<Rightarrow> 'a list \<Rightarrow> (runtime_error + unit) \<times> filesystem" where
  "write_file T fs path data =
     (if \<not> can_mkdir fs path then (Inl (CreateDirectoriesFailed path), fs)
      else ofstream_write T fs path data)"

subsection \<open>The matmul kernel\<close>

text \<open>The result of an expression of type \<^verbatim>\<open>size_t\<close>.\<close>

definition sz :: "nat \<Rightarrow> nat" where
  "sz x = x mod 2 ^ 64"

text \<open>
  The three loops of \<^verbatim>\<open>matmul_kernel<T>\<close>, innermost first. \<open>M\<close>, \<open>K\<close>, \<open>N\<close> are the
  \<^verbatim>\<open>size_t\<close> arguments \<^verbatim>\<open>m\<close>, \<^verbatim>\<open>k\<close>, \<^verbatim>\<open>n\<close>; \<open>a\<close>, \<open>b\<close>, \<open>c\<close> are the buffers behind the three
  pointers.
\<close>

function kk_loop ::
  "'a elem_type \<Rightarrow> 'a list \<Rightarrow> 'a list \<Rightarrow> nat \<Rightarrow> nat \<Rightarrow> nat \<Rightarrow> nat \<Rightarrow> nat \<Rightarrow> 'a \<Rightarrow> runtime_error + 'a" where
  "kk_loop T a b K N i j kk acc =
     (if kk < K then
        if sz (i * K + kk) < length a \<and> sz (kk * N + j) < length b
        then kk_loop T a b K N i j (kk + 1)
               (t_add T acc (t_mul T (a ! sz (i * K + kk)) (b ! sz (kk * N + j))))
        else Inl OutOfBounds
      else Inr acc)"
  by pat_completeness auto
termination
  by (relation "measure (\<lambda>(T, a, b, K, N, i, j, kk, acc). K - kk)") auto

declare kk_loop.simps [simp del]

function j_loop ::
  "'a elem_type \<Rightarrow> 'a list \<Rightarrow> 'a list \<Rightarrow> 'a list \<Rightarrow> nat \<Rightarrow> nat \<Rightarrow> nat \<Rightarrow> nat \<Rightarrow> runtime_error + 'a list" where
  "j_loop T a b c K N i j =
     (if j < N then
        (case kk_loop T a b K N i j 0 (t_zero T) of
           Inl e \<Rightarrow> Inl e
         | Inr acc \<Rightarrow>
             if sz (i * N + j) < length c
             then j_loop T a b (c[sz (i * N + j) := acc]) K N i (j + 1)
             else Inl OutOfBounds)
      else Inr c)"
  by pat_completeness auto
termination
  by (relation "measure (\<lambda>(T, a, b, c, K, N, i, j). N - j)") auto

declare j_loop.simps [simp del]

function i_loop ::
  "'a elem_type \<Rightarrow> 'a list \<Rightarrow> 'a list \<Rightarrow> 'a list \<Rightarrow> nat \<Rightarrow> nat \<Rightarrow> nat \<Rightarrow> nat \<Rightarrow> runtime_error + 'a list" where
  "i_loop T a b c M K N i =
     (if i < M then
        (case j_loop T a b c K N i 0 of
           Inl e \<Rightarrow> Inl e
         | Inr c' \<Rightarrow> i_loop T a b c' M K N (i + 1))
      else Inr c)"
  by pat_completeness auto
termination
  by (relation "measure (\<lambda>(T, a, b, c, M, K, N, i). M - i)") auto

declare i_loop.simps [simp del]

definition matmul_kernel ::
  "'a elem_type \<Rightarrow> 'a list \<Rightarrow> 'a list \<Rightarrow> 'a list \<Rightarrow> nat \<Rightarrow> nat \<Rightarrow> nat \<Rightarrow> runtime_error + 'a list" where
  "matmul_kernel T a b c M K N = i_loop T a b c M K N 0"

text \<open>
  The entry of the product that the specification gives: the sum over \<open>p\<close> from \<open>0\<close> to
  \<open>k - 1\<close> of \<open>a[i * k + p] * b[p * n + j]\<close>, added up in \<open>T\<close> in this order from
  \<^verbatim>\<open>static_cast<T>(0)\<close>.
\<close>

definition dot :: "'a elem_type \<Rightarrow> 'a list \<Rightarrow> 'a list \<Rightarrow> nat \<Rightarrow> nat \<Rightarrow> nat \<Rightarrow> nat \<Rightarrow> 'a" where
  "dot T a b K N i j =
     foldl (\<lambda>acc p. t_add T acc (t_mul T (a ! (i * K + p)) (b ! (p * N + j)))) (t_zero T) [0..<K]"

subsection \<open>The matmul runner\<close>

record Options =
  dtype :: string
  input0 :: string
  input1 :: string
  output0 :: string
  shapes_json :: string

text \<open>
  The constructor \<^verbatim>\<open>std::vector<T>(cnt, value)\<close>. It throws \<^verbatim>\<open>std::length_error\<close> when
  \<open>cnt\<close> is above \<^verbatim>\<open>max_size()\<close>, which is \<^verbatim>\<open>PTRDIFF_MAX / sizeof(T)\<close> (\<open>2 ^ 61 - 1\<close> for
  the element types of four bytes), and \<^verbatim>\<open>std::bad_alloc\<close> when the allocator cannot
  supply the bytes; \<open>mem\<close> is the number of bytes that it can supply.
\<close>

definition max_size :: "'a elem_type \<Rightarrow> nat" where
  "max_size T = (2 ^ 63 - 1) div sizeof T"

definition vector_fill :: "'a elem_type \<Rightarrow> nat \<Rightarrow> nat \<Rightarrow> 'a \<Rightarrow> runtime_error + 'a list" where
  "vector_fill T mem cnt v =
     (if max_size T < cnt then Inl LengthError
      else if mem < cnt * sizeof T then Inl BadAlloc
      else Inr (replicate cnt v))"

text \<open>
  The last steps of \<^verbatim>\<open>run_matmul<T>\<close> before the result is written: the output vector of
  \<^verbatim>\<open>static_cast<size_t>(shape.m * shape.n)\<close> zeros, and the call of the kernel.
\<close>

definition run_kernel ::
  "'a elem_type \<Rightarrow> nat \<Rightarrow> MatmulShape \<Rightarrow> 'a list \<Rightarrow> 'a list \<Rightarrow> runtime_error + 'a list" where
  "run_kernel T mem shape a b =
     (case vector_fill T mem (unat (m shape * n shape)) (t_zero T) of
        Inl e \<Rightarrow> Inl e
      | Inr out \<Rightarrow>
          matmul_kernel T a b out (unat (m shape)) (unat (k shape)) (unat (n shape)))"

definition run_matmul ::
  "'a elem_type \<Rightarrow> nat \<Rightarrow> filesystem \<Rightarrow> Options \<Rightarrow> MatmulShape
     \<Rightarrow> (runtime_error + unit) \<times> filesystem" where
  "run_matmul T mem fs opts shape =
     (let count_a = unat (m shape * k shape);
          count_b = unat (k shape * n shape)
      in case read_file T fs (input0 opts) of
           Inl e \<Rightarrow> (Inl e, fs)
         | Inr a \<Rightarrow>
             (case read_file T fs (input1 opts) of
                Inl e \<Rightarrow> (Inl e, fs)
              | Inr b \<Rightarrow>
                  if length a \<noteq> count_a \<or> length b \<noteq> count_b
                  then (Inl InputSizesDoNotMatchShapes, fs)
                  else
                    (case run_kernel T mem shape a b of
                       Inl e \<Rightarrow> (Inl e, fs)
                     | Inr out \<Rightarrow> write_file T fs (output0 opts) out)))"

text \<open>
  \<^verbatim>\<open>main\<close> of \<^verbatim>\<open>matmul_runner.cpp\<close>, from the parsed options on: the test of
  \<^verbatim>\<open>shapes_json\<close>, \<^verbatim>\<open>parse_shapes\<close>, and the chain on \<^verbatim>\<open>opts.dtype\<close> that calls
  \<^verbatim>\<open>run_matmul<float>\<close> or \<^verbatim>\<open>run_matmul<int32_t>\<close> or throws.
\<close>

definition matmul_main ::
  "platform \<Rightarrow> nat \<Rightarrow> filesystem \<Rightarrow> Options \<Rightarrow> (runtime_error + unit) \<times> filesystem" where
  "matmul_main P mem fs opts =
     (if shapes_json opts = [] then (Inl ShapesRequired, fs)
      else
        (case parse_shapes (shapes_json opts) of
           Inl e \<Rightarrow> (Inl e, fs)
         | Inr shape \<Rightarrow>
             if dtype opts = ''float32'' then run_matmul (float32 P) mem fs opts shape
             else if dtype opts = ''int32'' then run_matmul (int32_t P) mem fs opts shape
             else (Inl (UnsupportedDtype (dtype opts)), fs)))"

subsection \<open>The add runner\<close>

record AddOptions =
  add_dtype :: string
  add_input0 :: string
  add_input1 :: string
  add_output :: string

definition add_vectors :: "'a elem_type \<Rightarrow> 'a list \<Rightarrow> 'a list \<Rightarrow> runtime_error + 'a list" where
  "add_vectors T a b =
     (if length a \<noteq> length b then Inl InputSizesDiffer
      else Inr (map (\<lambda>i. t_add T (a ! i) (b ! i)) [0..<length a]))"

text \<open>
  The four statements of a branch of \<^verbatim>\<open>main\<close> in \<^verbatim>\<open>operator_cpp/operator/op_runner.cpp\<close>,
  for the element type of the branch: two reads, \<^verbatim>\<open>add_vectors\<close>, the write.
\<close>

definition run_add ::
  "'a elem_type \<Rightarrow> filesystem \<Rightarrow> AddOptions \<Rightarrow> (runtime_error + unit) \<times> filesystem" where
  "run_add T fs opts =
     (case read_file T fs (add_input0 opts) of
        Inl e \<Rightarrow> (Inl e, fs)
      | Inr a \<Rightarrow>
          (case read_file T fs (add_input1 opts) of
             Inl e \<Rightarrow> (Inl e, fs)
           | Inr b \<Rightarrow>
               (case add_vectors T a b of
                  Inl e \<Rightarrow> (Inl e, fs)
                | Inr out \<Rightarrow> ofstream_write T fs (add_output opts) out)))"

text \<open>
  \<^verbatim>\<open>main\<close> of \<^verbatim>\<open>operator_cpp/operator/op_runner.cpp\<close>, from the parsed options on:
  \<^verbatim>\<open>create_directories\<close>, then the chain on \<^verbatim>\<open>opts.dtype\<close>.
\<close>

definition add_main ::
  "platform \<Rightarrow> filesystem \<Rightarrow> AddOptions \<Rightarrow> (runtime_error + unit) \<times> filesystem" where
  "add_main P fs opts =
     (if \<not> can_mkdir fs (add_output opts) then (Inl (CreateDirectoriesFailed (add_output opts)), fs)
      else if add_dtype opts = ''float32'' then run_add (float32 P) fs opts
      else if add_dtype opts = ''int32'' then run_add (int32_t P) fs opts
      else (Inl (UnsupportedDtype (add_dtype opts)), fs))"

section \<open>Properties of the shape parser\<close>

subsection \<open>The loop of \<^verbatim>\<open>extract_numbers\<close> and the digit runs\<close>

lemma digit_runs_Nil:
  "dropWhile (\<lambda>c. \<not> is_digit c) s = [] \<Longrightarrow> digit_runs s = []"
  by (subst digit_runs.simps) (simp only: Let_def refl if_True)

lemma digit_runs_Cons:
  assumes "dropWhile (\<lambda>c. \<not> is_digit c) s = t" and "t \<noteq> []"
  shows "digit_runs s = takeWhile is_digit t # digit_runs (dropWhile is_digit t)"
  using assms by (subst digit_runs.simps) (simp only: Let_def if_False)

lemma dropWhile_nondigit_hd:
  assumes "dropWhile (\<lambda>c. \<not> is_digit c) s = t" and "t \<noteq> []"
  shows "is_digit (hd t)"
  using assms hd_dropWhile [of "\<lambda>c. \<not> is_digit c" s] by auto

lemma loop_in_number:
  "extract_loop s vs cur True =
     extract_loop (dropWhile is_digit s) (vs @ [foldl (\<lambda>v c. v * 10 + digit c) cur (takeWhile is_digit s)]) 0 False"
  by (induction s arbitrary: vs cur) auto

lemma loop_skip:
  "extract_loop s vs 0 False = extract_loop (dropWhile (\<lambda>c. \<not> is_digit c) s) vs 0 False"
  by (induction s arbitrary: vs) auto

lemma loop_runs:
  "extract_loop s vs 0 False = vs @ map run_value (digit_runs s)"
proof (induction s arbitrary: vs rule: digit_runs.induct)
  case (1 s)
  define t where "t = dropWhile (\<lambda>c. \<not> is_digit c) s"
  have skip: "extract_loop s vs 0 False = extract_loop t vs 0 False"
    unfolding t_def by (rule loop_skip)
  show ?case
  proof (cases "t = []")
    case True
    then have "digit_runs s = []"
      unfolding t_def by (rule digit_runs_Nil)
    with skip True show ?thesis by simp
  next
    case False
    then obtain c cs where t: "t = c # cs" by (cases t) auto
    have "is_digit (hd t)"
      by (rule dropWhile_nondigit_hd [OF t_def [symmetric] False])
    then have dc: "is_digit c" by (simp add: t)
    have runs: "digit_runs s = takeWhile is_digit t # digit_runs (dropWhile is_digit t)"
      by (rule digit_runs_Cons [OF t_def [symmetric] False])
    have "extract_loop t vs 0 False = extract_loop cs vs (0 * 10 + digit c) True"
      using dc by (simp add: t)
    also have "\<dots> = extract_loop (dropWhile is_digit cs)
        (vs @ [foldl (\<lambda>v c. v * 10 + digit c) (0 * 10 + digit c) (takeWhile is_digit cs)]) 0 False"
      by (rule loop_in_number)
    also have "\<dots> = extract_loop (dropWhile is_digit t) (vs @ [run_value (takeWhile is_digit t)]) 0 False"
      using dc by (simp add: t run_value_def)
    also have "\<dots> = (vs @ [run_value (takeWhile is_digit t)]) @ map run_value (digit_runs (dropWhile is_digit t))"
      using False by (intro "1.IH") (simp_all add: t_def)
    finally show ?thesis
      using skip runs by simp
  qed
qed

lemma digit_runs_digits: "r \<in> set (digit_runs s) \<Longrightarrow> r \<noteq> [] \<and> (\<forall>c\<in>set r. is_digit c)"
proof (induction s rule: digit_runs.induct)
  case (1 s)
  define t where "t = dropWhile (\<lambda>c. \<not> is_digit c) s"
  show ?case
  proof (cases "t = []")
    case True
    then have "digit_runs s = []"
      unfolding t_def by (rule digit_runs_Nil)
    with "1.prems" show ?thesis by simp
  next
    case False
    have "is_digit (hd t)"
      by (rule dropWhile_nondigit_hd [OF t_def [symmetric] False])
    with False have ne: "takeWhile is_digit t \<noteq> []" by (cases t) auto
    have runs: "digit_runs s = takeWhile is_digit t # digit_runs (dropWhile is_digit t)"
      by (rule digit_runs_Cons [OF t_def [symmetric] False])
    with "1.prems" have "r = takeWhile is_digit t \<or> r \<in> set (digit_runs (dropWhile is_digit t))"
      by simp
    then show ?thesis
    proof
      assume "r = takeWhile is_digit t"
      with ne show ?thesis by (auto dest: set_takeWhileD)
    next
      assume "r \<in> set (digit_runs (dropWhile is_digit t))"
      with False show ?thesis by (intro "1.IH") (simp_all add: t_def)
    qed
  qed
qed

lemma digit_runs_maximal:
  assumes "\<forall>c\<in>set pre. \<not> is_digit c" "ds \<noteq> []" "\<forall>c\<in>set ds. is_digit c"
    and "rest = [] \<or> \<not> is_digit (hd rest)"
  shows "digit_runs (pre @ ds @ rest) = ds # digit_runs rest"
proof -
  have a: "dropWhile (\<lambda>c. \<not> is_digit c) (pre @ ds @ rest) = ds @ rest"
    using assms(1-3) by (cases ds) (simp_all add: dropWhile_append3)
  have b: "takeWhile is_digit (ds @ rest) = ds"
    using assms(3,4) by (cases rest) (simp_all add: takeWhile_tail)
  have c: "dropWhile is_digit (ds @ rest) = rest"
    using assms(3,4) by (cases rest) simp_all
  from assms(2) have "ds @ rest \<noteq> []" by simp
  from digit_runs_Cons [OF a this] show ?thesis
    by (simp only: b c)
qed

lemma run_value_decimal: "run_value ds = of_nat (decimal ds)"
proof -
  have "of_nat (foldl (\<lambda>v c. v * 10 + (of_char c - 48)) a ds) = foldl (\<lambda>v c. v * 10 + digit c) (of_nat a) ds" for a
  proof (induction ds arbitrary: a)
    case Nil
    show ?case by simp
  next
    case (Cons c cs)
    have "(of_nat (a * 10 + (of_char c - 48)) :: int64) = of_nat a * 10 + digit c"
      by (simp add: digit_def)
    with Cons [of "a * 10 + (of_char c - 48)"] show ?case by simp
  qed
  from this [of 0] show ?thesis by (simp add: run_value_def decimal_def)
qed

lemma sint_small: "x < 2 ^ 63 \<Longrightarrow> sint (of_nat x :: int64) = int x"
  by (simp add: signed_of_nat signed_take_bit_int_eq_self)

lemma extract_numbers_runs: "extract_numbers str = map run_value (digit_runs str)"
  using loop_runs [of str "[]"] by (simp add: extract_numbers_def)

lemma parse_shapes_first_six:
  assumes "6 \<le> length (extract_numbers spec)" "6 \<le> length (extract_numbers spec')"
    and "take 6 (extract_numbers spec') = take 6 (extract_numbers spec)"
  shows "parse_shapes spec' = parse_shapes spec"
proof -
  have "extract_numbers spec' ! i = extract_numbers spec ! i" if "i < 6" for i
    using that assms(3) nth_take [of i 6 "extract_numbers spec'"] nth_take [of i 6 "extract_numbers spec"]
    by simp
  from this [of 0] this [of 1] this [of 2] this [of 3] this [of 4] this [of 5] assms(1,2)
  show ?thesis by (simp add: parse_shapes_def Let_def)
qed

section \<open>Properties of the tensor files\<close>

lemma le_word_le_bytes: "le_word (le_bytes w) = w"
proof (rule bit_word_eqI)
  fix i :: nat
  assume "i < LENGTH(32)"
  then consider "i < 8" | "8 \<le> i" "i < 16" | "16 \<le> i" "i < 24" | "24 \<le> i" "i < 32"
    by fastforce
  then show "bit (le_word (le_bytes w)) i = bit w i"
    by cases (auto simp: le_bytes_def bit_simps)
qed



lemma length_native_bytes: "length (native_bytes P w) = 4"
  by (simp add: native_bytes_def le_bytes_def)

lemma native_word_bytes: "native_word P (native_bytes P w) = w"
  by (simp add: native_word_def native_bytes_def le_word_le_bytes)


lemma sizeof_instantiate: "sizeof (instantiate P t) = 4"
  by (cases t) (simp_all add: float32_def int32_t_def)

lemma to_bytes_instantiate: "to_bytes (instantiate P t) = native_bytes P"
  by (cases t) (simp_all add: float32_def int32_t_def)

lemma of_bytes_instantiate: "of_bytes (instantiate P t) = native_word P"
  by (cases t) (simp_all add: float32_def int32_t_def)

text \<open>Generic facts about the object representation.\<close>

lemma length_bytes_of:
  assumes "\<And>x. length (to_bytes T x) = sizeof T"
  shows "length (bytes_of T buf) = length buf * sizeof T"
  using assms by (induction buf) (simp_all add: bytes_of_def)



lemma slice_bytes_of:
  assumes l: "\<And>x. length (to_bytes T x) = sizeof T" and i: "i < length buf"
  shows "take (sizeof T) (drop (i * sizeof T) (bytes_of T buf)) = to_bytes T (buf ! i)"
  using i
proof (induction buf arbitrary: i)
  case Nil
  then show ?case by simp
next
  case (Cons x xs)
  show ?case
  proof (cases i)
    case 0
    then show ?thesis by (simp add: bytes_of_def l)
  next
    case (Suc j)
    with Cons.prems have "j < length xs" by simp
    from Cons.IH [OF this] show ?thesis
      by (simp add: Suc bytes_of_def l)
  qed
qed

lemma elements_of_bytes_of:
  assumes l: "\<And>x. length (to_bytes T x) = sizeof T"
    and rt: "\<And>x. of_bytes T (to_bytes T x) = x"
  shows "elements_of T (length buf) (bytes_of T buf) = buf"
  by (rule nth_equalityI) (simp_all add: elements_of_def slice_bytes_of [OF l] rt)

lemma read_file_instantiate:
  assumes "files fs path = Some content"
  shows "read_file (instantiate P t) fs path =
    (if length content mod 4 \<noteq> 0 then Inl (FileSizeNotAligned path)
     else Inr (elements_of (instantiate P t) (length content div 4) content))"
  using assms by (simp add: read_file_def istream_read_def sizeof_instantiate Let_def)

section \<open>Properties of the kernel\<close>

lemma sz_id: "x < 2 ^ 64 \<Longrightarrow> sz x = x"
  by (simp add: sz_def)

lemma row_index_less:
  fixes i j rows cols :: nat
  assumes "i < rows" "j < cols"
  shows "i * cols + j < rows * cols"
proof -
  have "i * cols + j < i * cols + cols" using assms(2) by simp
  also have "\<dots> = Suc i * cols" by simp
  also have "\<dots> \<le> rows * cols" using assms(1) by (intro mult_le_mono1) simp
  finally show ?thesis .
qed

lemma row_index_div:
  fixes i q cols :: nat
  assumes "i * cols \<le> q" "q < i * cols + cols"
  shows "q div cols = i" and "q mod cols = q - i * cols"
proof -
  show d: "q div cols = i"
    using assms by (intro div_nat_eqI) (simp_all add: mult.commute)
  show "q mod cols = q - i * cols"
    using d minus_div_mult_eq_mod [of q cols] by simp
qed

lemma kk_loop_foldl:
  assumes a: "\<And>p. p < K \<Longrightarrow> i * K + p < length a"
    and b: "\<And>p. p < K \<Longrightarrow> p * N + j < length b"
    and la: "length a < 2 ^ 64" and lb: "length b < 2 ^ 64"
  shows "kk \<le> K \<Longrightarrow> kk_loop T a b K N i j kk acc =
    Inr (foldl (\<lambda>acc p. t_add T acc (t_mul T (a ! (i * K + p)) (b ! (p * N + j)))) acc [kk..<K])"
proof (induction "K - kk" arbitrary: kk acc)
  case 0
  then have "kk = K" by simp
  then show ?case by (subst kk_loop.simps) simp
next
  case (Suc d)
  then have lt: "kk < K" by simp
  from a [OF lt] la have ia: "sz (i * K + kk) = i * K + kk" by (intro sz_id) simp
  from b [OF lt] lb have ib: "sz (kk * N + j) = kk * N + j" by (intro sz_id) simp
  from Suc have d: "d = K - (kk + 1)" and le: "kk + 1 \<le> K" by simp_all
  have "kk_loop T a b K N i j kk acc =
      kk_loop T a b K N i j (kk + 1) (t_add T acc (t_mul T (a ! (i * K + kk)) (b ! (kk * N + j))))"
    using lt a [OF lt] b [OF lt] by (subst kk_loop.simps) (simp add: ia ib)
  also note Suc.hyps(1) [OF d le]
  finally show ?case using lt by (simp add: upt_conv_Cons)
qed

lemma kk_loop_dot:
  assumes "\<And>p. p < K \<Longrightarrow> i * K + p < length a"
    and "\<And>p. p < K \<Longrightarrow> p * N + j < length b"
    and "length a < 2 ^ 64" and "length b < 2 ^ 64"
  shows "kk_loop T a b K N i j 0 (t_zero T) = Inr (dot T a b K N i j)"
  unfolding dot_def using assms le0 by (rule kk_loop_foldl)

lemma j_loop_row:
  assumes a: "\<And>p. p < K \<Longrightarrow> i * K + p < length a"
    and b: "\<And>p j. p < K \<Longrightarrow> j < N \<Longrightarrow> p * N + j < length b"
    and la: "length a < 2 ^ 64" and lb: "length b < 2 ^ 64"
    and lc: "length c < 2 ^ 64" and c: "i * N + N \<le> length c"
  shows "j \<le> N \<Longrightarrow> \<exists>c'. j_loop T a b c K N i j = Inr c' \<and> length c' = length c
    \<and> (\<forall>q<length c. c' ! q =
          (if i * N + j \<le> q \<and> q < i * N + N then dot T a b K N i (q - i * N) else c ! q))"
  using lc c
proof (induction "N - j" arbitrary: j c)
  case 0
  then have "j = N" by simp
  then show ?case by (subst j_loop.simps) auto
next
  case (Suc d)
  then have lt: "j < N" by simp
  let ?c1 = "c[i * N + j := dot T a b K N i j]"
  have idx: "i * N + j < length c" using lt Suc.prems(3) by simp
  with Suc.prems(2) have sc: "sz (i * N + j) = i * N + j" by (intro sz_id) simp
  have kk: "kk_loop T a b K N i j 0 (t_zero T) = Inr (dot T a b K N i j)"
    using a b [OF _ lt] la lb by (rule kk_loop_dot)
  have step: "j_loop T a b c K N i j = j_loop T a b ?c1 K N i (j + 1)"
    using lt idx by (subst j_loop.simps) (simp add: kk sc)
  from Suc have d: "d = N - (j + 1)" and le: "j + 1 \<le> N" by simp_all
  have "length ?c1 < 2 ^ 64" "i * N + N \<le> length ?c1"
    using Suc.prems by simp_all
  from Suc.hyps(1) [OF d le this]
  obtain c' where r: "j_loop T a b ?c1 K N i (j + 1) = Inr c'" and l: "length c' = length ?c1"
    and v: "\<forall>q<length ?c1. c' ! q =
          (if i * N + (j + 1) \<le> q \<and> q < i * N + N then dot T a b K N i (q - i * N) else ?c1 ! q)"
    by blast
  have "\<forall>q<length c. c' ! q =
          (if i * N + j \<le> q \<and> q < i * N + N then dot T a b K N i (q - i * N) else c ! q)"
  proof (intro allI impI)
    fix q assume q: "q < length c"
    show "c' ! q = (if i * N + j \<le> q \<and> q < i * N + N then dot T a b K N i (q - i * N) else c ! q)"
    proof (cases "q = i * N + j")
      case True
      with v q idx lt show ?thesis by simp
    next
      case False
      with v q show ?thesis by (auto simp: nth_list_update)
    qed
  qed
  with r l step show ?case by simp
qed

lemma i_loop_rows:
  assumes la: "length a = M * K" and lb: "length b = K * N"
    and sa: "M * K < 2 ^ 64" and sb: "K * N < 2 ^ 64" and sc: "M * N < 2 ^ 64"
  shows "i \<le> M \<Longrightarrow> length c = M * N \<Longrightarrow>
    \<exists>c'. i_loop T a b c M K N i = Inr c' \<and> length c' = length c
      \<and> (\<forall>q<length c. c' ! q =
            (if i * N \<le> q then dot T a b K N (q div N) (q mod N) else c ! q))"
proof (induction "M - i" arbitrary: i c)
  case 0
  then have "i = M" by simp
  with 0 show ?case by (subst i_loop.simps) simp
next
  case (Suc d)
  then have lt: "i < M" by simp
  have a: "\<And>p. p < K \<Longrightarrow> i * K + p < length a"
    unfolding la using lt by (rule row_index_less)
  have b: "\<And>p j. p < K \<Longrightarrow> j < N \<Longrightarrow> p * N + j < length b"
    unfolding lb by (rule row_index_less)
  have "Suc i * N \<le> M * N" using lt by (intro mult_le_mono1) simp
  then have c: "i * N + N \<le> length c" using Suc.prems(2) by (simp add: add.commute)
  have "\<exists>c'. j_loop T a b c K N i 0 = Inr c' \<and> length c' = length c
    \<and> (\<forall>q<length c. c' ! q =
          (if i * N + 0 \<le> q \<and> q < i * N + N then dot T a b K N i (q - i * N) else c ! q))"
  proof (rule j_loop_row [OF a b _ _ _ c])
    show "length a < 2 ^ 64" unfolding la by (rule sa)
    show "length b < 2 ^ 64" unfolding lb by (rule sb)
    show "length c < 2 ^ 64" unfolding Suc.prems(2) by (rule sc)
  qed simp_all
  then obtain c1 where r1: "j_loop T a b c K N i 0 = Inr c1" and l1: "length c1 = length c"
    and v1: "\<forall>q<length c. c1 ! q =
          (if i * N \<le> q \<and> q < i * N + N then dot T a b K N i (q - i * N) else c ! q)"
    by auto
  have step: "i_loop T a b c M K N i = i_loop T a b c1 M K N (i + 1)"
    using lt by (subst i_loop.simps) (simp add: r1)
  from Suc have d: "d = M - (i + 1)" and le: "i + 1 \<le> M" by simp_all
  from Suc.hyps(1) [OF d le] l1 Suc.prems(2)
  obtain c' where r: "i_loop T a b c1 M K N (i + 1) = Inr c'" and l: "length c' = length c1"
    and v: "\<forall>q<length c1. c' ! q =
          (if (i + 1) * N \<le> q then dot T a b K N (q div N) (q mod N) else c1 ! q)"
    by auto
  have "\<forall>q<length c. c' ! q = (if i * N \<le> q then dot T a b K N (q div N) (q mod N) else c ! q)"
  proof (intro allI impI)
    fix q assume q: "q < length c"
    consider "q < i * N" | "i * N \<le> q" "q < i * N + N" | "i * N + N \<le> q" by linarith
    then show "c' ! q = (if i * N \<le> q then dot T a b K N (q div N) (q mod N) else c ! q)"
    proof cases
      case 1
      with v v1 q l1 show ?thesis by simp
    next
      case 2
      from row_index_div [OF 2] 2 v v1 q l1 show ?thesis by simp
    next
      case 3
      with v q l1 show ?thesis by simp
    qed
  qed
  with r l l1 step show ?case by simp
qed

lemma matmul_kernel_correct:
  assumes la: "length a = M * K" and lb: "length b = K * N" and lc: "length c = M * N"
    and sa: "M * K < 2 ^ 64" and sb: "K * N < 2 ^ 64" and sc: "M * N < 2 ^ 64"
  shows "\<exists>c'. matmul_kernel T a b c M K N = Inr c' \<and> length c' = M * N
      \<and> (\<forall>i<M. \<forall>j<N. c' ! (i * N + j) = dot T a b K N i j)"
proof -
  from i_loop_rows [OF la lb sa sb sc, of 0 c T] lc
  obtain c' where r: "i_loop T a b c M K N 0 = Inr c'" and l: "length c' = M * N"
    and v: "\<forall>q<M * N. c' ! q = dot T a b K N (q div N) (q mod N)"
    by auto
  have "c' ! (i * N + j) = dot T a b K N i j" if "i < M" "j < N" for i j
  proof -
    from that have "i * N + j < M * N" by (rule row_index_less)
    with v have "c' ! (i * N + j) = dot T a b K N ((i * N + j) div N) ((i * N + j) mod N)"
      by simp
    with that(2) show ?thesis by simp
  qed
  with r l show ?thesis by (auto simp: matmul_kernel_def)
qed

lemma replicate_numeral: "replicate (numeral v) x = x # replicate (pred_numeral v) x"
  by (simp add: numeral_eq_Suc)

lemma list_update_Cons_numeral: "(x # xs)[numeral v := y] = x # xs[pred_numeral v := y]"
  by (simp add: numeral_eq_Suc)


lemma dot_int32_sum:
  "dot (int32_t P) a b K N i j = (\<Sum>p<K. a ! (i * K + p) * b ! (p * N + j))"
proof -
  have "foldl (\<lambda>acc p. acc + a ! (i * K + p) * b ! (p * N + j)) z [0..<cnt]
      = z + (\<Sum>p<cnt. a ! (i * K + p) * b ! (p * N + j))" for z cnt
    by (induction cnt) (simp_all add: add.assoc)
  from this [of 0 K] show ?thesis by (simp add: dot_def int32_t_def)
qed

lemma unat_mult_exact:
  fixes x y :: int64
  shows "unat x * unat y < 2 ^ 64 \<Longrightarrow> unat (x * y) = unat x * unat y"
  using unat_mult_lem [of x y] by simp

lemma max_size_less: "max_size T < 2 ^ 64"
proof -
  have "max_size T \<le> 2 ^ 63 - 1" by (simp add: max_size_def)
  also have "\<dots> < (2 ^ 64 :: nat)" by simp
  finally show ?thesis .
qed

lemma max_size_four: "sizeof T = 4 \<Longrightarrow> max_size T = 2305843009213693951"
  by (simp add: max_size_def)

lemma vector_fill_Inr:
  "cnt \<le> max_size T \<Longrightarrow> cnt * sizeof T \<le> mem \<Longrightarrow> vector_fill T mem cnt v = Inr (replicate cnt v)"
  by (simp add: vector_fill_def)

lemma run_kernel_alloc:
  assumes "unat (m shape) * unat (n shape) \<le> max_size T"
    and "unat (m shape) * unat (n shape) * sizeof T \<le> mem"
  shows "run_kernel T mem shape a b =
    matmul_kernel T a b (replicate (unat (m shape) * unat (n shape)) (t_zero T))
      (unat (m shape)) (unat (k shape)) (unat (n shape))"
proof -
  from assms(1) max_size_less [of T] have "unat (m shape) * unat (n shape) < 2 ^ 64"
    by (rule le_less_trans)
  then have "unat (m shape * n shape) = unat (m shape) * unat (n shape)"
    by (rule unat_mult_exact)
  with assms show ?thesis
    by (simp add: run_kernel_def vector_fill_Inr)
qed

lemma run_kernel_correct:
  fixes T :: "'a elem_type"
  assumes "length a = unat (m shape) * unat (k shape)"
    and "length b = unat (k shape) * unat (n shape)"
    and "unat (m shape) * unat (k shape) < 2 ^ 64"
    and "unat (k shape) * unat (n shape) < 2 ^ 64"
    and "unat (m shape) * unat (n shape) \<le> max_size T"
    and "unat (m shape) * unat (n shape) * sizeof T \<le> mem"
  shows "\<exists>c. run_kernel T mem shape a b = Inr c
        \<and> length c = unat (m shape) * unat (n shape)
        \<and> (\<forall>i<unat (m shape). \<forall>j<unat (n shape).
              c ! (i * unat (n shape) + j) = dot T a b (unat (k shape)) (unat (n shape)) i j)"
proof -
  let ?out = "replicate (unat (m shape) * unat (n shape)) (t_zero T)"
  have rk: "run_kernel T mem shape a b =
      matmul_kernel T a b ?out (unat (m shape)) (unat (k shape)) (unat (n shape))"
    using assms(5,6) by (rule run_kernel_alloc)
  from assms(5) max_size_less [of T] have lt: "unat (m shape) * unat (n shape) < 2 ^ 64"
    by (rule le_less_trans)
  have "\<exists>c. matmul_kernel T a b ?out (unat (m shape)) (unat (k shape)) (unat (n shape)) = Inr c
      \<and> length c = unat (m shape) * unat (n shape)
      \<and> (\<forall>i<unat (m shape). \<forall>j<unat (n shape).
            c ! (i * unat (n shape) + j) = dot T a b (unat (k shape)) (unat (n shape)) i j)"
    using assms(1-4) lt by (intro matmul_kernel_correct) simp_all
  then show ?thesis unfolding rk .
qed

lemma run_kernel_too_long:
  "max_size T < unat (m shape * n shape) \<Longrightarrow> run_kernel T mem shape a b = Inl LengthError"
  by (simp add: run_kernel_def vector_fill_def)

lemma run_kernel_identity_int32:
  assumes "16 \<le> mem"
  shows "run_kernel (int32_t P) mem \<lparr>m = 2, k = 2, n = 2\<rparr> [1, 0, 0, 1] [5, 6, 7, 8]
    = Inr [5, 6, 7, 8]"
proof -
  have "vector_fill (int32_t P) mem 4 0 = Inr [0, 0, 0, 0]"
    using assms by (simp add: vector_fill_def max_size_def int32_t_def replicate_numeral)
  then show ?thesis
    by (simp add: run_kernel_def matmul_kernel_def i_loop.simps j_loop.simps kk_loop.simps
        sz_def int32_t_def list_update_Cons_numeral)
qed

lemma run_kernel_identity:
  fixes T :: "'a elem_type"
  assumes "\<forall>x\<in>{va, vb, vc, vd}. t_mul T one x = x \<and> t_mul T (t_zero T) x = t_zero T
      \<and> t_add T (t_zero T) x = x \<and> t_add T x (t_zero T) = x"
    and "t_add T (t_zero T) (t_zero T) = t_zero T"
    and "4 \<le> max_size T" and "4 * sizeof T \<le> mem"
  shows "run_kernel T mem \<lparr>m = 2, k = 2, n = 2\<rparr> [one, t_zero T, t_zero T, one] [va, vb, vc, vd]
      = Inr [va, vb, vc, vd]"
proof -
  have "vector_fill T mem 4 (t_zero T) = Inr [t_zero T, t_zero T, t_zero T, t_zero T]"
    using assms(3,4) by (simp add: vector_fill_def replicate_numeral)
  with assms(1,2) show ?thesis
    by (simp add: run_kernel_def matmul_kernel_def i_loop.simps j_loop.simps kk_loop.simps
        sz_def list_update_Cons_numeral)
qed

section \<open>The errors of a run\<close>

lemma kk_loop_error: "kk_loop T a b K N i j kk acc = Inl e \<Longrightarrow> e = OutOfBounds"
proof (induction T a b K N i j kk acc rule: kk_loop.induct)
  case (1 T a b K N i j kk acc)
  from "1.prems" show ?case
    by (subst (asm) kk_loop.simps) (auto split: if_splits intro: "1.IH")
qed

lemma j_loop_error: "j_loop T a b c K N i j = Inl e \<Longrightarrow> e = OutOfBounds"
proof (induction T a b c K N i j rule: j_loop.induct)
  case (1 T a b c K N i j)
  from "1.prems" show ?case
    by (subst (asm) j_loop.simps)
      (auto split: if_splits sum.splits dest: kk_loop_error intro: "1.IH")
qed

lemma i_loop_error: "i_loop T a b c M K N i = Inl e \<Longrightarrow> e = OutOfBounds"
proof (induction T a b c M K N i rule: i_loop.induct)
  case (1 T a b c M K N i)
  from "1.prems" show ?case
    by (subst (asm) i_loop.simps)
      (auto split: if_splits sum.splits dest: j_loop_error intro: "1.IH")
qed

lemma run_kernel_error:
  "run_kernel T mem shape a b = Inl e \<Longrightarrow> e \<in> {LengthError, BadAlloc, OutOfBounds}"
  by (auto simp: run_kernel_def vector_fill_def matmul_kernel_def
      split: if_splits sum.splits dest: i_loop_error)

lemma read_file_error:
  "read_file T fs path = Inl e \<Longrightarrow> kind e = IOError \<or> kind e = SizeMismatchError"
  by (auto simp: read_file_def Let_def split: option.splits if_splits)

lemma ofstream_write_error: "fst (ofstream_write T fs path buf) = Inl e \<Longrightarrow> kind e = IOError"
  by (auto simp: ofstream_write_def Let_def split: if_splits)

lemma write_file_error: "fst (write_file T fs path buf) = Inl e \<Longrightarrow> kind e = IOError"
  by (auto simp: write_file_def split: if_splits dest: ofstream_write_error)

lemma run_matmul_error:
  assumes "fst (run_matmul T mem fs opts shape) = Inl e"
  shows "kind e \<noteq> UnsupportedDtypeError"
proof -
  consider (a) "\<exists>e'. read_file T fs (input0 opts) = Inl e' \<and> e = e'"
    | (b) "\<exists>e'. read_file T fs (input1 opts) = Inl e' \<and> e = e'"
    | (c) "e = InputSizesDoNotMatchShapes"
    | (d) "\<exists>x y. run_kernel T mem shape x y = Inl e"
    | (w) "\<exists>out. fst (write_file T fs (output0 opts) out) = Inl e"
    using assms by (auto simp: run_matmul_def Let_def split: sum.splits if_splits)
  then show ?thesis
  proof cases
    case a then show ?thesis by (auto dest: read_file_error)
  next
    case b then show ?thesis by (auto dest: read_file_error)
  next
    case c then show ?thesis by simp
  next
    case d then show ?thesis by (auto dest: run_kernel_error)
  next
    case w then show ?thesis by (auto dest: write_file_error)
  qed
qed

lemma run_add_error:
  assumes "fst (run_add T fs opts) = Inl e"
  shows "kind e \<noteq> UnsupportedDtypeError"
proof -
  consider (a) "\<exists>e'. read_file T fs (add_input0 opts) = Inl e' \<and> e = e'"
    | (b) "\<exists>e'. read_file T fs (add_input1 opts) = Inl e' \<and> e = e'"
    | (c) "e = InputSizesDiffer"
    | (w) "\<exists>out. fst (ofstream_write T fs (add_output opts) out) = Inl e"
    using assms by (auto simp: run_add_def add_vectors_def split: sum.splits if_splits)
  then show ?thesis
  proof cases
    case a then show ?thesis by (auto dest: read_file_error)
  next
    case b then show ?thesis by (auto dest: read_file_error)
  next
    case c then show ?thesis by simp
  next
    case w then show ?thesis by (auto dest: ofstream_write_error)
  qed
qed

text \<open>
  A short write that stays in the buffer of the stream is not reported: with no room on
  the device, writing three elements returns normally and leaves an empty file.
\<close>

lemma write_file_buffered_failure:
  "write_file (instantiate P t)
      \<lparr>files = Map.empty, can_mkdir = (\<lambda>p. True), can_create = (\<lambda>p. True), room = (\<lambda>p. 0),
        stream_buffer = 1024\<rparr> ''out/o.bin'' [7, 8, 9]
    = (Inr (), \<lparr>files = [''out/o.bin'' \<mapsto> []], can_mkdir = (\<lambda>p. True),
         can_create = (\<lambda>p. True), room = (\<lambda>p. 0), stream_buffer = 1024\<rparr>)"
proof -
  have "length (bytes_of (instantiate P t) [7, 8, 9]) = 12"
    using length_bytes_of [of "instantiate P t" "[7, 8, 9]"]
    by (simp add: to_bytes_instantiate sizeof_instantiate length_native_bytes)
  then show ?thesis
    by (simp add: write_file_def ofstream_write_def Let_def)
qed

text \<open>
  An output of more than \<^verbatim>\<open>max_size()\<close> elements is refused by the constructor of the
  vector: for the shape \<open>(2 ^ 31, 0, 2 ^ 31)\<close> the run of the kernel ends with
  \<^verbatim>\<open>std::length_error\<close>.
\<close>

lemma run_kernel_length_error:
  "run_kernel (int32_t P) mem \<lparr>m = 2147483648, k = 0, n = 2147483648\<rparr> [] [] = Inl LengthError"
  by (rule run_kernel_too_long) (simp add: max_size_def int32_t_def)

section \<open>The claims\<close>

subsection \<open>The parser: claims\<close>

text \<open>
  \<^bold>\<open>C1.\<close> For every spec string, with \<open>nums\<close> the numbers that \<^verbatim>\<open>extract_numbers\<close> finds:
  fewer than 4 numbers give the error "shapes must include at least two input shapes"
  (a \<open>ShapeFormatError\<close>); otherwise \<open>nums[1] \<noteq> nums[2]\<close> gives a \<open>ShapeMismatchError\<close>;
  otherwise, when there are 6 or more numbers, \<open>nums[4] \<noteq> nums[0]\<close> or \<open>nums[5] \<noteq> nums[3]\<close>
  gives a \<open>ShapeMismatchError\<close>; in every remaining case the result is the shape
  \<open>(nums[0], nums[1], nums[3])\<close>. Numbers beyond index 5 are ignored: two specs with 6
  or more numbers that agree on the first six have the same result. The three examples
  of the specification are the last three conjuncts.
\<close>

theorem parse_shapes_cases:
  fixes spec :: string
  defines "nums \<equiv> extract_numbers spec"
  shows "(length nums < 4 \<longrightarrow> parse_shapes spec = Inl ShapesTooFew)
    \<and> (4 \<le> length nums \<and> nums ! 1 \<noteq> nums ! 2 \<longrightarrow> parse_shapes spec = Inl ShapeKMismatch)
    \<and> (6 \<le> length nums \<and> nums ! 1 = nums ! 2 \<and> (nums ! 4 \<noteq> nums ! 0 \<or> nums ! 5 \<noteq> nums ! 3)
         \<longrightarrow> parse_shapes spec = Inl OutputShapeMismatch)
    \<and> (4 \<le> length nums \<and> nums ! 1 = nums ! 2
         \<and> (6 \<le> length nums \<longrightarrow> nums ! 4 = nums ! 0 \<and> nums ! 5 = nums ! 3)
         \<longrightarrow> parse_shapes spec = Inr \<lparr>m = nums ! 0, k = nums ! 1, n = nums ! 3\<rparr>)
    \<and> (6 \<le> length nums \<and> 6 \<le> length (extract_numbers spec')
         \<and> take 6 (extract_numbers spec') = take 6 nums
         \<longrightarrow> parse_shapes spec' = parse_shapes spec)
    \<and> kind ShapesTooFew = ShapeFormatError
    \<and> kind ShapeKMismatch = ShapeMismatchError
    \<and> kind OutputShapeMismatch = ShapeMismatchError
    \<and> (nums = [2, 3, 3, 4] \<longrightarrow> parse_shapes spec = Inr \<lparr>m = 2, k = 3, n = 4\<rparr>)
    \<and> (nums = [2, 3, 5, 4] \<longrightarrow> parse_shapes spec = Inl ShapeKMismatch)
    \<and> (nums = [1, 2, 3] \<longrightarrow> parse_shapes spec = Inl ShapesTooFew)"
proof -
  have "6 \<le> length nums \<and> 6 \<le> length (extract_numbers spec')
         \<and> take 6 (extract_numbers spec') = take 6 nums
         \<longrightarrow> parse_shapes spec' = parse_shapes spec"
    unfolding nums_def using parse_shapes_first_six [of spec spec'] by blast
  moreover have "(length nums < 4 \<longrightarrow> parse_shapes spec = Inl ShapesTooFew)
    \<and> (4 \<le> length nums \<and> nums ! 1 \<noteq> nums ! 2 \<longrightarrow> parse_shapes spec = Inl ShapeKMismatch)
    \<and> (6 \<le> length nums \<and> nums ! 1 = nums ! 2 \<and> (nums ! 4 \<noteq> nums ! 0 \<or> nums ! 5 \<noteq> nums ! 3)
         \<longrightarrow> parse_shapes spec = Inl OutputShapeMismatch)
    \<and> (4 \<le> length nums \<and> nums ! 1 = nums ! 2
         \<and> (6 \<le> length nums \<longrightarrow> nums ! 4 = nums ! 0 \<and> nums ! 5 = nums ! 3)
         \<longrightarrow> parse_shapes spec = Inr \<lparr>m = nums ! 0, k = nums ! 1, n = nums ! 3\<rparr>)
    \<and> (nums = [2, 3, 3, 4] \<longrightarrow> parse_shapes spec = Inr \<lparr>m = 2, k = 3, n = 4\<rparr>)
    \<and> (nums = [2, 3, 5, 4] \<longrightarrow> parse_shapes spec = Inl ShapeKMismatch)
    \<and> (nums = [1, 2, 3] \<longrightarrow> parse_shapes spec = Inl ShapesTooFew)"
    unfolding nums_def by (auto simp: parse_shapes_def Let_def)
  ultimately show ?thesis by simp
qed

theorem parse_shapes_cases_witness:
  "parse_shapes ''1,2,3'' = Inl ShapesTooFew
   \<and> parse_shapes ''2x3,5x4'' = Inl ShapeKMismatch
   \<and> parse_shapes ''[[2,3],[3,4],[2,5]]'' = Inl OutputShapeMismatch
   \<and> parse_shapes ''[[2,3],[3,4],[2,4],[7]]'' = Inr \<lparr>m = 2, k = 3, n = 4\<rparr>
   \<and> parse_shapes ''[[2,3],[3,4],[2,4]]'' = parse_shapes ''[[2,3],[3,4],[2,4],[7]]''
   \<and> parse_shapes ''2x3,3x4'' = Inr \<lparr>m = 2, k = 3, n = 4\<rparr>"
proof -
  have a: "extract_numbers ''1,2,3'' = [1, 2, 3]"
    by (simp add: extract_numbers_def is_digit_def digit_def)
  have b: "extract_numbers ''2x3,5x4'' = [2, 3, 5, 4]"
    by (simp add: extract_numbers_def is_digit_def digit_def)
  have c: "extract_numbers ''[[2,3],[3,4],[2,5]]'' = [2, 3, 3, 4, 2, 5]"
    by (simp add: extract_numbers_def is_digit_def digit_def)
  have d: "extract_numbers ''[[2,3],[3,4],[2,4],[7]]'' = [2, 3, 3, 4, 2, 4, 7]"
    by (simp add: extract_numbers_def is_digit_def digit_def)
  have e: "extract_numbers ''2x3,3x4'' = [2, 3, 3, 4]"
    by (simp add: extract_numbers_def is_digit_def digit_def)
  have f: "extract_numbers ''[[2,3],[3,4],[2,4]]'' = [2, 3, 3, 4, 2, 4]"
    by (simp add: extract_numbers_def is_digit_def digit_def)
  show ?thesis
    using parse_shapes_cases [where spec = "''1,2,3''" and spec' = "''1,2,3''"]
      parse_shapes_cases [where spec = "''2x3,5x4''" and spec' = "''2x3,5x4''"]
      parse_shapes_cases [where spec = "''[[2,3],[3,4],[2,5]]''" and spec' = "''[[2,3],[3,4],[2,5]]''"]
      parse_shapes_cases [where spec = "''[[2,3],[3,4],[2,4],[7]]''"
        and spec' = "''[[2,3],[3,4],[2,4]]''"]
      parse_shapes_cases [where spec = "''2x3,3x4''" and spec' = "''2x3,3x4''"]
    unfolding a b c d e f by simp
qed

text \<open>
  \<^bold>\<open>C2.\<close> For every input string, \<^verbatim>\<open>extract_numbers\<close> returns the values of the maximal
  runs of decimal digits of the string, in their order, each run read by
  \<open>value = value * 10 + digit\<close>. Said without \<open>digit_runs\<close>: a string without digits
  yields nothing, and a string that is separators, then a non-empty run of digits, then a
  rest that is empty or starts with a separator, yields the value of the run followed by
  the numbers of the rest. The three strings of the specification yield \<open>[1, 2, 3, 4]\<close>.
\<close>

theorem extract_numbers_maximal_runs:
  "extract_numbers str = map run_value (digit_runs str)
   \<and> ((\<forall>c\<in>set pre. \<not> is_digit c) \<longrightarrow> extract_numbers pre = [])
   \<and> ((\<forall>c\<in>set pre. \<not> is_digit c) \<and> ds \<noteq> [] \<and> (\<forall>c\<in>set ds. is_digit c)
        \<and> (rest = [] \<or> \<not> is_digit (hd rest))
      \<longrightarrow> extract_numbers (pre @ ds @ rest) = run_value ds # extract_numbers rest)
   \<and> extract_numbers ''1,2,3,4'' = [1, 2, 3, 4]
   \<and> extract_numbers ''[[1,2],[3,4]]'' = [1, 2, 3, 4]
   \<and> extract_numbers ''m=1 k=2 k=3 n=4'' = [1, 2, 3, 4]"
proof -
  have "extract_numbers pre = []" if "\<forall>c\<in>set pre. \<not> is_digit c"
    using that digit_runs_Nil [of pre] by (simp add: extract_numbers_runs)
  moreover have "extract_numbers (pre @ ds @ rest) = run_value ds # extract_numbers rest"
    if "(\<forall>c\<in>set pre. \<not> is_digit c) \<and> ds \<noteq> [] \<and> (\<forall>c\<in>set ds. is_digit c)
        \<and> (rest = [] \<or> \<not> is_digit (hd rest))"
    using that digit_runs_maximal [of pre ds rest] by (simp add: extract_numbers_runs)
  moreover have "extract_numbers ''1,2,3,4'' = [1, 2, 3, 4]"
    by (simp add: extract_numbers_def is_digit_def digit_def)
  moreover have "extract_numbers ''[[1,2],[3,4]]'' = [1, 2, 3, 4]"
    by (simp add: extract_numbers_def is_digit_def digit_def)
  moreover have "extract_numbers ''m=1 k=2 k=3 n=4'' = [1, 2, 3, 4]"
    by (simp add: extract_numbers_def is_digit_def digit_def)
  ultimately show ?thesis
    using extract_numbers_runs [of str] by blast
qed

theorem extract_numbers_maximal_runs_witness:
  "extract_numbers ''ab12,,345x'' = [12, 345]
   \<and> digit_runs ''ab12,,345x'' = [''12'', ''345'']
   \<and> extract_numbers ''ab'' = []
   \<and> extract_numbers (''ab'' @ ''12'' @ '',,345x'') = run_value ''12'' # extract_numbers '',,345x''"
proof -
  have dr: "digit_runs ''ab12,,345x'' = [''12'', ''345'']" by code_simp
  have rv: "map run_value [''12'', ''345''] = [12, 345]"
    by (simp add: run_value_def digit_def)
  have pre: "\<forall>c\<in>set ''ab''. \<not> is_digit c" by (simp add: is_digit_def)
  have run: "(\<forall>c\<in>set ''ab''. \<not> is_digit c) \<and> ''12'' \<noteq> [] \<and> (\<forall>c\<in>set ''12''. is_digit c)
      \<and> ('',,345x'' = [] \<or> \<not> is_digit (hd '',,345x''))"
    by (simp add: is_digit_def)
  note inst = extract_numbers_maximal_runs [where str = "''ab12,,345x''" and pre = "''ab''"
      and ds = "''12''" and rest = "'',,345x''"]
  from inst have a: "extract_numbers ''ab12,,345x'' = [12, 345]"
    unfolding dr rv by (rule conjunct1)
  from inst pre have b: "extract_numbers ''ab'' = []" by blast
  from inst run
  have c: "extract_numbers (''ab'' @ ''12'' @ '',,345x'') = run_value ''12'' # extract_numbers '',,345x''"
    by blast
  from a dr b c show ?thesis by (intro conjI)
qed

text \<open>
  \<^bold>\<open>C9.\<close> When exactly 5 numbers are extracted and \<open>nums[1] = nums[2]\<close>, \<^verbatim>\<open>parse_shapes\<close>
  succeeds with the shape \<open>(nums[0], nums[1], nums[3])\<close>, whatever the fifth number is.
\<close>

theorem five_numbers_fifth_unchecked:
  assumes "length (extract_numbers spec) = 5"
    and "extract_numbers spec ! 1 = extract_numbers spec ! 2"
  shows "parse_shapes spec =
    Inr \<lparr>m = extract_numbers spec ! 0, k = extract_numbers spec ! 1, n = extract_numbers spec ! 3\<rparr>"
  using assms by (simp add: parse_shapes_def Let_def)

theorem five_numbers_fifth_unchecked_witness:
  "length (extract_numbers ''2x3,3x4,99'') = 5
   \<and> extract_numbers ''2x3,3x4,99'' ! 1 = extract_numbers ''2x3,3x4,99'' ! 2
   \<and> parse_shapes ''2x3,3x4,99'' = Inr \<lparr>m = 2, k = 3, n = 4\<rparr>"
proof -
  have e: "extract_numbers ''2x3,3x4,99'' = [2, 3, 3, 4, 99]"
    by (simp add: extract_numbers_def is_digit_def digit_def)
  show ?thesis
    using five_numbers_fifth_unchecked [of "''2x3,3x4,99''"] unfolding e by simp
qed

text \<open>
  \<^bold>\<open>C7, as stated, fails.\<close> The run \<open>9223372036854775808\<close> is \<open>2 ^ 63\<close>: the accumulation
  wraps, \<^verbatim>\<open>extract_numbers\<close> yields \<open>- 2 ^ 63\<close>, and \<^verbatim>\<open>parse_shapes\<close> accepts a shape whose
  \<open>m\<close> is negative.
\<close>

theorem extract_numbers_negative_counterexample:
  "map sint (extract_numbers ''9223372036854775808'') = [- 9223372036854775808]
   \<and> parse_shapes ''9223372036854775808x1,1x1'' = Inr \<lparr>m = 9223372036854775808, k = 1, n = 1\<rparr>
   \<and> sint (9223372036854775808 :: int64) < 0"
  by (simp add: parse_shapes_def extract_numbers_def is_digit_def digit_def)

text \<open>
  \<^bold>\<open>C7, as amended.\<close> When every digit run of the string denotes a number below \<open>2 ^ 63\<close>,
  the integers that \<^verbatim>\<open>extract_numbers\<close> produces are the numbers the runs denote, each is
  non-negative, and so is each component of a shape that \<^verbatim>\<open>parse_shapes\<close> returns.
\<close>

theorem extract_numbers_nonneg:
  assumes "\<forall>r\<in>set (digit_runs str). decimal r < 2 ^ 63"
  shows "map sint (extract_numbers str) = map (\<lambda>r. int (decimal r)) (digit_runs str)
    \<and> (\<forall>v\<in>set (extract_numbers str). 0 \<le> sint v)
    \<and> (\<forall>sh. parse_shapes str = Inr sh \<longrightarrow> 0 \<le> sint (m sh) \<and> 0 \<le> sint (k sh) \<and> 0 \<le> sint (n sh))"
proof -
  have en: "extract_numbers str = map run_value (digit_runs str)"
    by (rule extract_numbers_runs)
  have a: "map sint (extract_numbers str) = map (\<lambda>r. int (decimal r)) (digit_runs str)"
    using assms by (simp add: en run_value_decimal sint_small)
  have b: "\<forall>v\<in>set (extract_numbers str). 0 \<le> sint v"
  proof
    fix v assume "v \<in> set (extract_numbers str)"
    then have "sint v \<in> set (map sint (extract_numbers str))" by simp
    then show "0 \<le> sint v" unfolding a by auto
  qed
  have c: "0 \<le> sint (m sh) \<and> 0 \<le> sint (k sh) \<and> 0 \<le> sint (n sh)" if "parse_shapes str = Inr sh" for sh
  proof -
    from that have len: "4 \<le> length (extract_numbers str)"
      and sh: "sh = \<lparr>m = extract_numbers str ! 0, k = extract_numbers str ! 1, n = extract_numbers str ! 3\<rparr>"
      by (auto simp: parse_shapes_def Let_def split: if_splits)
    from len have "0 < length (extract_numbers str)" "1 < length (extract_numbers str)"
      "3 < length (extract_numbers str)"
      by linarith+
    then have "extract_numbers str ! 0 \<in> set (extract_numbers str)"
      "extract_numbers str ! 1 \<in> set (extract_numbers str)"
      "extract_numbers str ! 3 \<in> set (extract_numbers str)"
      by (simp_all only: nth_mem)
    with b show ?thesis by (simp add: sh)
  qed
  from a b c show ?thesis by blast
qed

theorem extract_numbers_nonneg_witness:
  "map decimal (digit_runs ''2x3,3x9223372036854775807'') = [2, 3, 3, 9223372036854775807]
   \<and> map sint (extract_numbers ''2x3,3x9223372036854775807'') = [2, 3, 3, 9223372036854775807]
   \<and> parse_shapes ''2x3,3x9223372036854775807'' = Inr \<lparr>m = 2, k = 3, n = 9223372036854775807\<rparr>"
proof -
  have dr: "digit_runs ''2x3,3x9223372036854775807'' = [''2'', ''3'', ''3'', ''9223372036854775807'']"
    by code_simp
  have dec: "map decimal [''2'', ''3'', ''3'', ''9223372036854775807''] = [2, 3, 3, 9223372036854775807]"
    by (simp add: decimal_def)
  have h: "\<forall>r\<in>set (digit_runs ''2x3,3x9223372036854775807''). decimal r < 2 ^ 63"
    unfolding dr by (simp add: decimal_def)
  have p: "parse_shapes ''2x3,3x9223372036854775807'' = Inr \<lparr>m = 2, k = 3, n = 9223372036854775807\<rparr>"
    by (simp add: parse_shapes_def extract_numbers_def is_digit_def digit_def)
  have d: "map (\<lambda>r. int (decimal r)) [''2'', ''3'', ''3'', ''9223372036854775807'']
      = [2, 3, 3, 9223372036854775807]"
    by (simp add: decimal_def)
  from extract_numbers_nonneg [OF h] p dec show ?thesis
    unfolding dr d by simp
qed

subsection \<open>The tensor files and the dtype dispatch: claims\<close>



text \<open>
  \<^bold>\<open>C10.\<close> For both dtypes, reading a file of zero bytes succeeds and returns the empty
  buffer: neither the size check nor the read of zero bytes fails.
\<close>

theorem read_file_empty:
  assumes "files fs path = Some []"
  shows "read_file (instantiate P t) fs path = Inr []
    \<and> \<not> fails_with (read_file (instantiate P t) fs path) SizeMismatchError
    \<and> \<not> fails_with (read_file (instantiate P t) fs path) IOError"
  using read_file_instantiate [OF assms, of P t]
  by (simp add: elements_of_def fails_with_def)

theorem read_file_empty_witness:
  "read_file (instantiate \<lparr>little_endian = True, fadd = (+), fmul = (*)\<rparr> Float32)
      \<lparr>files = [''e.bin'' \<mapsto> []], can_mkdir = (\<lambda>p. True),
        can_create = (\<lambda>p. True), room = (\<lambda>p. 64), stream_buffer = 1024\<rparr> ''e.bin'' = Inr []"
proof -
  let ?fs = "\<lparr>files = [''e.bin'' \<mapsto> ([] :: byte list)], can_mkdir = (\<lambda>p. True),
        can_create = (\<lambda>p. True), room = (\<lambda>p. 64), stream_buffer = 1024\<rparr>"
  have h: "files ?fs ''e.bin'' = Some []" by simp
  let ?P = "\<lparr>little_endian = True, fadd = (+), fmul = (*)\<rparr>"
  from read_file_empty [OF h, of ?P Float32] show ?thesis by simp
qed

text \<open>
  \<^bold>\<open>C5.\<close> For both dtypes and every buffer of length \<open>L\<close>: whenever the file holds the
  \<open>L * sizeof(T)\<close> bytes of the buffer, \<^verbatim>\<open>read_file\<close> of it with the same dtype returns the
  buffer. After \<^verbatim>\<open>write_file\<close> has opened the file, the file holds the bytes that were
  stored; when the directories and the file can be created and all \<open>L * sizeof(T)\<close> bytes
  are stored, \<^verbatim>\<open>write_file\<close> succeeds, the file holds the bytes of the buffer, and
  \<^verbatim>\<open>read_file\<close> returns the buffer.
\<close>

theorem write_file_read_file:
  "(files fs' path = Some (bytes_of (instantiate P t) buf)
      \<longrightarrow> read_file (instantiate P t) fs' path = Inr buf)
   \<and> (can_mkdir fs path \<and> can_create fs path
      \<longrightarrow> files (snd (write_file (instantiate P t) fs path buf)) path
            = Some (take (room fs path) (bytes_of (instantiate P t) buf)))
   \<and> (can_mkdir fs path \<and> can_create fs path
        \<and> length buf * sizeof (instantiate P t) \<le> room fs path
      \<longrightarrow> write_file (instantiate P t) fs path buf
            = (Inr (), fs\<lparr>files := (files fs)(path \<mapsto> bytes_of (instantiate P t) buf)\<rparr>)
          \<and> read_file (instantiate P t)
              (fs\<lparr>files := (files fs)(path \<mapsto> bytes_of (instantiate P t) buf)\<rparr>) path = Inr buf)"
proof -
  let ?T = "instantiate P t"
  have len: "length (bytes_of ?T buf) = length buf * 4"
    using length_bytes_of [of ?T buf]
    by (simp add: to_bytes_instantiate sizeof_instantiate length_native_bytes)
  have el: "elements_of ?T (length buf) (bytes_of ?T buf) = buf"
    by (rule elements_of_bytes_of)
      (simp_all add: to_bytes_instantiate of_bytes_instantiate sizeof_instantiate
        length_native_bytes native_word_bytes)
  have rd: "read_file ?T g path = Inr buf" if f: "files g path = Some (bytes_of ?T buf)" for g
    using read_file_instantiate [OF f, of P t] len el by simp
  have st: "files (snd (write_file ?T fs path buf)) path = Some (take (room fs path) (bytes_of ?T buf))"
    if "can_mkdir fs path \<and> can_create fs path"
    using that by (simp add: write_file_def ofstream_write_def Let_def)
  have wr: "write_file ?T fs path buf = (Inr (), fs\<lparr>files := (files fs)(path \<mapsto> bytes_of ?T buf)\<rparr>)"
    if "can_mkdir fs path \<and> can_create fs path \<and> length buf * sizeof ?T \<le> room fs path"
    using that len by (simp add: write_file_def ofstream_write_def Let_def sizeof_instantiate)
  have "read_file ?T (fs\<lparr>files := (files fs)(path \<mapsto> bytes_of ?T buf)\<rparr>) path = Inr buf"
    by (rule rd) simp
  with rd [of fs'] st wr show ?thesis by blast
qed

theorem write_file_read_file_witness:
  "write_file (instantiate \<lparr>little_endian = False, fadd = (+), fmul = (*)\<rparr> Int32)
      \<lparr>files = Map.empty, can_mkdir = (\<lambda>p. True), can_create = (\<lambda>p. True), room = (\<lambda>p. 64),
        stream_buffer = 1024\<rparr>
      ''out/o.bin'' [1, 256]
    = (Inr (), \<lparr>files = [''out/o.bin'' \<mapsto> [0, 0, 0, 1, 0, 0, 1, 0]], can_mkdir = (\<lambda>p. True),
         can_create = (\<lambda>p. True), room = (\<lambda>p. 64), stream_buffer = 1024\<rparr>)
   \<and> read_file (instantiate \<lparr>little_endian = False, fadd = (+), fmul = (*)\<rparr> Int32)
       \<lparr>files = [''out/o.bin'' \<mapsto> [0, 0, 0, 1, 0, 0, 1, 0]], can_mkdir = (\<lambda>p. True),
         can_create = (\<lambda>p. True), room = (\<lambda>p. 64), stream_buffer = 1024\<rparr> ''out/o.bin''
      = Inr [1, 256]"
proof -
  let ?P = "\<lparr>little_endian = False, fadd = (+), fmul = (*)\<rparr>"
  let ?fs = "\<lparr>files = (Map.empty :: string \<rightharpoonup> byte list), can_mkdir = (\<lambda>p. True),
      can_create = (\<lambda>p. True), room = (\<lambda>p. 64), stream_buffer = 1024\<rparr>"
  let ?fs' = "\<lparr>files = [''out/o.bin'' \<mapsto> [0, 0, 0, 1, 0, 0, 1, 0 :: byte]], can_mkdir = (\<lambda>p. True),
         can_create = (\<lambda>p. True), room = (\<lambda>p. 64), stream_buffer = 1024\<rparr>"
  have bo: "bytes_of (instantiate ?P Int32) [1, 256] = [0, 0, 0, 1, 0, 0, 1, 0]"
    by (simp add: bytes_of_def int32_t_def native_bytes_def le_bytes_def)
  have up: "?fs\<lparr>files := (files ?fs)(''out/o.bin'' \<mapsto> [0, 0, 0, 1, 0, 0, 1, 0])\<rparr> = ?fs'"
    by simp
  have h: "can_mkdir ?fs ''out/o.bin'' \<and> can_create ?fs ''out/o.bin''
      \<and> length [1, 256 :: elem] * sizeof (instantiate ?P Int32) \<le> room ?fs ''out/o.bin''"
    by (simp add: int32_t_def)
  note inst = write_file_read_file [where P = ?P and t = Int32 and fs = ?fs
      and path = "''out/o.bin''" and buf = "[1, 256]", THEN conjunct2, THEN conjunct2]
  from mp [OF inst h] show ?thesis
    unfolding bo up .
qed

text \<open>
  \<^bold>\<open>C8.\<close> The resolution of the specification yields \<open>Float32\<close> exactly for the string
  \<open>float32\<close> and \<open>Int32\<close> exactly for \<open>int32\<close>, and fails with an \<open>UnsupportedDtypeError\<close>
  that carries the tag for every other string, \<open>float64\<close> among them. Both \<^verbatim>\<open>main\<close>
  functions dispatch as it says, once they reach the chain on \<^verbatim>\<open>opts.dtype\<close>: the tag
  \<open>float32\<close> runs the \<^verbatim>\<open>float\<close> instantiation, \<open>int32\<close> the \<^verbatim>\<open>int32_t\<close> instantiation, every
  other tag throws "unsupported dtype: " with the tag, and the run fails with an
  \<open>UnsupportedDtypeError\<close> exactly when the tag is neither of the two strings.
\<close>

theorem main_dtype_dispatch:
  "(resolve tag = Inr Float32 \<longleftrightarrow> tag = ''float32'')
   \<and> (resolve tag = Inr Int32 \<longleftrightarrow> tag = ''int32'')
   \<and> (tag \<noteq> ''float32'' \<and> tag \<noteq> ''int32''
        \<longrightarrow> resolve tag = Inl (UnsupportedDtype tag)
          \<and> fails_with (resolve tag) UnsupportedDtypeError)
   \<and> fails_with (resolve ''float64'') UnsupportedDtypeError
   \<and> (shapes_json opts \<noteq> [] \<and> parse_shapes (shapes_json opts) = Inr shape
        \<longrightarrow> matmul_main P mem fs opts =
              (case resolve (dtype opts) of
                 Inl e \<Rightarrow> (Inl e, fs)
               | Inr t \<Rightarrow> run_matmul (instantiate P t) mem fs opts shape)
          \<and> (dtype opts = ''float32''
                \<longrightarrow> matmul_main P mem fs opts = run_matmul (float32 P) mem fs opts shape)
          \<and> (dtype opts = ''int32''
                \<longrightarrow> matmul_main P mem fs opts = run_matmul (int32_t P) mem fs opts shape)
          \<and> (dtype opts \<noteq> ''float32'' \<and> dtype opts \<noteq> ''int32''
                \<longrightarrow> matmul_main P mem fs opts = (Inl (UnsupportedDtype (dtype opts)), fs))
          \<and> (fails_with (fst (matmul_main P mem fs opts)) UnsupportedDtypeError
                \<longleftrightarrow> dtype opts \<noteq> ''float32'' \<and> dtype opts \<noteq> ''int32''))
   \<and> (can_mkdir fs (add_output aopts)
        \<longrightarrow> add_main P fs aopts =
              (case resolve (add_dtype aopts) of
                 Inl e \<Rightarrow> (Inl e, fs)
               | Inr t \<Rightarrow> run_add (instantiate P t) fs aopts)
          \<and> (add_dtype aopts = ''float32''
                \<longrightarrow> add_main P fs aopts = run_add (float32 P) fs aopts)
          \<and> (add_dtype aopts = ''int32''
                \<longrightarrow> add_main P fs aopts = run_add (int32_t P) fs aopts)
          \<and> (add_dtype aopts \<noteq> ''float32'' \<and> add_dtype aopts \<noteq> ''int32''
                \<longrightarrow> add_main P fs aopts = (Inl (UnsupportedDtype (add_dtype aopts)), fs))
          \<and> (fails_with (fst (add_main P fs aopts)) UnsupportedDtypeError
                \<longleftrightarrow> add_dtype aopts \<noteq> ''float32'' \<and> add_dtype aopts \<noteq> ''int32''))"
proof -
  have r: "(resolve tag = Inr Float32 \<longleftrightarrow> tag = ''float32'')
     \<and> (resolve tag = Inr Int32 \<longleftrightarrow> tag = ''int32'')
     \<and> (tag \<noteq> ''float32'' \<and> tag \<noteq> ''int32''
          \<longrightarrow> resolve tag = Inl (UnsupportedDtype tag)
            \<and> fails_with (resolve tag) UnsupportedDtypeError)
     \<and> fails_with (resolve ''float64'') UnsupportedDtypeError"
    by (auto simp: resolve_def fails_with_def)
  have nm: "\<not> fails_with (fst (run_matmul T mem fs opts shape)) UnsupportedDtypeError"
    for T :: "elem elem_type"
    using run_matmul_error [of T mem fs opts shape]
    by (auto simp: fails_with_def split: sum.splits)
  have na: "\<not> fails_with (fst (run_add T fs aopts)) UnsupportedDtypeError"
    for T :: "elem elem_type"
    using run_add_error [of T fs aopts]
    by (auto simp: fails_with_def split: sum.splits)
  have mm: "matmul_main P mem fs opts =
        (case resolve (dtype opts) of
           Inl e \<Rightarrow> (Inl e, fs)
         | Inr t \<Rightarrow> run_matmul (instantiate P t) mem fs opts shape)
      \<and> (dtype opts = ''float32''
            \<longrightarrow> matmul_main P mem fs opts = run_matmul (float32 P) mem fs opts shape)
      \<and> (dtype opts = ''int32''
            \<longrightarrow> matmul_main P mem fs opts = run_matmul (int32_t P) mem fs opts shape)
      \<and> (dtype opts \<noteq> ''float32'' \<and> dtype opts \<noteq> ''int32''
            \<longrightarrow> matmul_main P mem fs opts = (Inl (UnsupportedDtype (dtype opts)), fs))
      \<and> (fails_with (fst (matmul_main P mem fs opts)) UnsupportedDtypeError
            \<longleftrightarrow> dtype opts \<noteq> ''float32'' \<and> dtype opts \<noteq> ''int32'')"
    if "shapes_json opts \<noteq> [] \<and> parse_shapes (shapes_json opts) = Inr shape"
    using that nm [of "float32 P"] nm [of "int32_t P"]
    by (simp add: matmul_main_def resolve_def fails_with_def)
  have am: "add_main P fs aopts =
        (case resolve (add_dtype aopts) of
           Inl e \<Rightarrow> (Inl e, fs)
         | Inr t \<Rightarrow> run_add (instantiate P t) fs aopts)
      \<and> (add_dtype aopts = ''float32''
            \<longrightarrow> add_main P fs aopts = run_add (float32 P) fs aopts)
      \<and> (add_dtype aopts = ''int32''
            \<longrightarrow> add_main P fs aopts = run_add (int32_t P) fs aopts)
      \<and> (add_dtype aopts \<noteq> ''float32'' \<and> add_dtype aopts \<noteq> ''int32''
            \<longrightarrow> add_main P fs aopts = (Inl (UnsupportedDtype (add_dtype aopts)), fs))
      \<and> (fails_with (fst (add_main P fs aopts)) UnsupportedDtypeError
            \<longleftrightarrow> add_dtype aopts \<noteq> ''float32'' \<and> add_dtype aopts \<noteq> ''int32'')"
    if "can_mkdir fs (add_output aopts)"
    using that na [of "float32 P"] na [of "int32_t P"]
    by (simp add: add_main_def resolve_def fails_with_def)
  from r mm am show ?thesis by blast
qed


theorem main_dtype_dispatch_witness:
  "matmul_main \<lparr>little_endian = True, fadd = (+), fmul = (*)\<rparr> 1024
      \<lparr>files = [''data/input0.bin'' \<mapsto> [3, 0, 0, 0], ''data/input1.bin'' \<mapsto> [5, 0, 0, 0]],
        can_mkdir = (\<lambda>p. True), can_create = (\<lambda>p. True), room = (\<lambda>p. 64), stream_buffer = 1024\<rparr>
      \<lparr>dtype = ''int32'', input0 = ''data/input0.bin'', input1 = ''data/input1.bin'',
        output0 = ''out/output0.bin'', shapes_json = ''1x1,1x1''\<rparr>
    = (Inr (),
       \<lparr>files = [''data/input0.bin'' \<mapsto> [3, 0, 0, 0], ''data/input1.bin'' \<mapsto> [5, 0, 0, 0],
          ''out/output0.bin'' \<mapsto> [15, 0, 0, 0]],
        can_mkdir = (\<lambda>p. True), can_create = (\<lambda>p. True), room = (\<lambda>p. 64), stream_buffer = 1024\<rparr>)
   \<and> matmul_main \<lparr>little_endian = True, fadd = (+), fmul = (*)\<rparr> 1024
      \<lparr>files = [''data/input0.bin'' \<mapsto> [3, 0, 0, 0], ''data/input1.bin'' \<mapsto> [5, 0, 0, 0]],
        can_mkdir = (\<lambda>p. True), can_create = (\<lambda>p. True), room = (\<lambda>p. 64), stream_buffer = 1024\<rparr>
      \<lparr>dtype = ''float64'', input0 = ''data/input0.bin'', input1 = ''data/input1.bin'',
        output0 = ''out/output0.bin'', shapes_json = ''1x1,1x1''\<rparr>
    = (Inl (UnsupportedDtype ''float64''),
       \<lparr>files = [''data/input0.bin'' \<mapsto> [3, 0, 0, 0], ''data/input1.bin'' \<mapsto> [5, 0, 0, 0]],
        can_mkdir = (\<lambda>p. True), can_create = (\<lambda>p. True), room = (\<lambda>p. 64), stream_buffer = 1024\<rparr>)
   \<and> add_main \<lparr>little_endian = True, fadd = (+), fmul = (*)\<rparr>
      \<lparr>files = [''input/input0.bin'' \<mapsto> [3, 0, 0, 0], ''input/input1.bin'' \<mapsto> [5, 0, 0, 0]],
        can_mkdir = (\<lambda>p. True), can_create = (\<lambda>p. True), room = (\<lambda>p. 64), stream_buffer = 1024\<rparr>
      \<lparr>add_dtype = ''int32'', add_input0 = ''input/input0.bin'', add_input1 = ''input/input1.bin'',
        add_output = ''output/output0.bin''\<rparr>
    = (Inr (),
       \<lparr>files = [''input/input0.bin'' \<mapsto> [3, 0, 0, 0], ''input/input1.bin'' \<mapsto> [5, 0, 0, 0],
          ''output/output0.bin'' \<mapsto> [8, 0, 0, 0]],
        can_mkdir = (\<lambda>p. True), can_create = (\<lambda>p. True), room = (\<lambda>p. 64), stream_buffer = 1024\<rparr>)
   \<and> fst (add_main \<lparr>little_endian = True, fadd = (+), fmul = (*)\<rparr>
      \<lparr>files = [''input/input0.bin'' \<mapsto> [3, 0, 0, 0], ''input/input1.bin'' \<mapsto> [5, 0, 0, 0]],
        can_mkdir = (\<lambda>p. True), can_create = (\<lambda>p. True), room = (\<lambda>p. 64), stream_buffer = 1024\<rparr>
      \<lparr>add_dtype = ''INT32'', add_input0 = ''input/input0.bin'', add_input1 = ''input/input1.bin'',
        add_output = ''output/output0.bin''\<rparr>) = Inl (UnsupportedDtype ''INT32'')
   \<and> resolve ''float32'' = Inr Float32 \<and> resolve ''int32'' = Inr Int32
   \<and> resolve ''Float32'' = Inl (UnsupportedDtype ''Float32'')"
proof -
  let ?P = "\<lparr>little_endian = True, fadd = (+), fmul = (*)\<rparr>"
  let ?fs = "\<lparr>files = [''data/input0.bin'' \<mapsto> [3, 0, 0, 0 :: byte],
        ''data/input1.bin'' \<mapsto> [5, 0, 0, 0]],
      can_mkdir = (\<lambda>p. True), can_create = (\<lambda>p. True), room = (\<lambda>p. 64), stream_buffer = 1024\<rparr>"
  let ?fa = "\<lparr>files = [''input/input0.bin'' \<mapsto> [3, 0, 0, 0 :: byte],
        ''input/input1.bin'' \<mapsto> [5, 0, 0, 0]],
      can_mkdir = (\<lambda>p. True), can_create = (\<lambda>p. True), room = (\<lambda>p. 64), stream_buffer = 1024\<rparr>"
  let ?oi = "\<lparr>dtype = ''int32'', input0 = ''data/input0.bin'', input1 = ''data/input1.bin'',
        output0 = ''out/output0.bin'', shapes_json = ''1x1,1x1''\<rparr>"
  let ?of = "\<lparr>dtype = ''float64'', input0 = ''data/input0.bin'', input1 = ''data/input1.bin'',
        output0 = ''out/output0.bin'', shapes_json = ''1x1,1x1''\<rparr>"
  let ?ai = "\<lparr>add_dtype = ''int32'', add_input0 = ''input/input0.bin'',
        add_input1 = ''input/input1.bin'', add_output = ''output/output0.bin''\<rparr>"
  let ?au = "\<lparr>add_dtype = ''INT32'', add_input0 = ''input/input0.bin'',
        add_input1 = ''input/input1.bin'', add_output = ''output/output0.bin''\<rparr>"
  let ?sh = "\<lparr>m = 1, k = 1, n = 1 :: int64\<rparr>"
  have p: "parse_shapes ''1x1,1x1'' = Inr ?sh"
    by (simp add: parse_shapes_def extract_numbers_def is_digit_def digit_def)
  have hi: "shapes_json ?oi \<noteq> [] \<and> parse_shapes (shapes_json ?oi) = Inr ?sh" using p by simp
  have hf: "shapes_json ?of \<noteq> [] \<and> parse_shapes (shapes_json ?of) = Inr ?sh" using p by simp
  have r0: "read_file (int32_t ?P) ?fs ''data/input0.bin'' = Inr [3]"
    by (simp add: read_file_def istream_read_def int32_t_def elements_of_def native_word_def)
  have r1: "read_file (int32_t ?P) ?fs ''data/input1.bin'' = Inr [5]"
    by (simp add: read_file_def istream_read_def int32_t_def elements_of_def native_word_def)
  have vf: "vector_fill (int32_t ?P) 1024 1 0 = Inr [0]"
    by (simp add: vector_fill_def max_size_def int32_t_def)
  have rk: "run_kernel (int32_t ?P) 1024 ?sh [3] [5] = Inr [15]"
    using vf
    by (simp add: run_kernel_def matmul_kernel_def i_loop.simps j_loop.simps kk_loop.simps
        sz_def int32_t_def)
  have bo: "bytes_of (int32_t ?P) [15] = [15, 0, 0, 0]"
    by (simp add: bytes_of_def int32_t_def native_bytes_def le_bytes_def)
  have wf: "write_file (int32_t ?P) ?fs ''out/output0.bin'' [15]
      = (Inr (), ?fs\<lparr>files := (files ?fs)(''out/output0.bin'' \<mapsto> [15, 0, 0, 0])\<rparr>)"
    unfolding write_file_def ofstream_write_def bo by simp
  have rm: "run_matmul (int32_t ?P) 1024 ?fs ?oi ?sh
      = (Inr (), ?fs\<lparr>files := (files ?fs)(''out/output0.bin'' \<mapsto> [15, 0, 0, 0])\<rparr>)"
    by (simp add: run_matmul_def r0 r1 rk wf)
  have a0: "read_file (int32_t ?P) ?fa ''input/input0.bin'' = Inr [3]"
    by (simp add: read_file_def istream_read_def int32_t_def elements_of_def native_word_def)
  have a1: "read_file (int32_t ?P) ?fa ''input/input1.bin'' = Inr [5]"
    by (simp add: read_file_def istream_read_def int32_t_def elements_of_def native_word_def)
  have av: "add_vectors (int32_t ?P) [3] [5] = Inr [8]"
    by (simp add: add_vectors_def int32_t_def)
  have b8: "bytes_of (int32_t ?P) [8] = [8, 0, 0, 0]"
    by (simp add: bytes_of_def int32_t_def native_bytes_def le_bytes_def)
  have aw: "ofstream_write (int32_t ?P) ?fa ''output/output0.bin'' [8]
      = (Inr (), ?fa\<lparr>files := (files ?fa)(''output/output0.bin'' \<mapsto> [8, 0, 0, 0])\<rparr>)"
    unfolding ofstream_write_def b8 by simp
  have ra: "run_add (int32_t ?P) ?fa ?ai
      = (Inr (), ?fa\<lparr>files := (files ?fa)(''output/output0.bin'' \<mapsto> [8, 0, 0, 0])\<rparr>)"
    by (simp add: run_add_def a0 a1 av aw)
  note mi = main_dtype_dispatch [where opts = ?oi and shape = ?sh and P = ?P and mem = 1024
      and fs = ?fs, THEN conjunct2, THEN conjunct2, THEN conjunct2, THEN conjunct2, THEN conjunct1]
  note mf = main_dtype_dispatch [where opts = ?of and shape = ?sh and P = ?P and mem = 1024
      and fs = ?fs, THEN conjunct2, THEN conjunct2, THEN conjunct2, THEN conjunct2, THEN conjunct1]
  note ai = main_dtype_dispatch [where aopts = ?ai and P = ?P and fs = ?fa,
      THEN conjunct2, THEN conjunct2, THEN conjunct2, THEN conjunct2, THEN conjunct2]
  note au = main_dtype_dispatch [where aopts = ?au and P = ?P and fs = ?fa,
      THEN conjunct2, THEN conjunct2, THEN conjunct2, THEN conjunct2, THEN conjunct2]
  have di: "dtype ?oi = ''int32''" by simp
  have df: "dtype ?of \<noteq> ''float32'' \<and> dtype ?of \<noteq> ''int32''" by simp
  have dai: "add_dtype ?ai = ''int32''" by simp
  have dau: "add_dtype ?au \<noteq> ''float32'' \<and> add_dtype ?au \<noteq> ''int32''" by simp
  have "matmul_main ?P 1024 ?fs ?oi = run_matmul (int32_t ?P) 1024 ?fs ?oi ?sh"
    by (rule mp [OF mp [OF mi hi, THEN conjunct2, THEN conjunct2, THEN conjunct1] di])
  then have c1: "matmul_main ?P 1024 ?fs ?oi
      = (Inr (), ?fs\<lparr>files := (files ?fs)(''out/output0.bin'' \<mapsto> [15, 0, 0, 0])\<rparr>)"
    unfolding rm .
  have "matmul_main ?P 1024 ?fs ?of = (Inl (UnsupportedDtype (dtype ?of)), ?fs)"
    by (rule mp [OF mp [OF mf hf, THEN conjunct2, THEN conjunct2, THEN conjunct2, THEN conjunct1] df])
  then have c2: "matmul_main ?P 1024 ?fs ?of = (Inl (UnsupportedDtype ''float64''), ?fs)"
    by simp
  have ma: "can_mkdir ?fa (add_output ?ai)" by simp
  have "add_main ?P ?fa ?ai = run_add (int32_t ?P) ?fa ?ai"
    by (rule mp [OF mp [OF ai ma, THEN conjunct2, THEN conjunct2, THEN conjunct1] dai])
  then have c3: "add_main ?P ?fa ?ai
      = (Inr (), ?fa\<lparr>files := (files ?fa)(''output/output0.bin'' \<mapsto> [8, 0, 0, 0])\<rparr>)"
    unfolding ra .
  have mu: "can_mkdir ?fa (add_output ?au)" by simp
  have "add_main ?P ?fa ?au = (Inl (UnsupportedDtype (add_dtype ?au)), ?fa)"
    by (rule mp [OF mp [OF au mu, THEN conjunct2, THEN conjunct2, THEN conjunct2, THEN conjunct1] dau])
  then have c4: "fst (add_main ?P ?fa ?au) = Inl (UnsupportedDtype ''INT32'')"
    by simp
  have u1: "?fs\<lparr>files := (files ?fs)(''out/output0.bin'' \<mapsto> [15, 0, 0, 0])\<rparr>
      = \<lparr>files = [''data/input0.bin'' \<mapsto> [3, 0, 0, 0], ''data/input1.bin'' \<mapsto> [5, 0, 0, 0],
          ''out/output0.bin'' \<mapsto> [15, 0, 0, 0]],
        can_mkdir = (\<lambda>p. True), can_create = (\<lambda>p. True), room = (\<lambda>p. 64), stream_buffer = 1024\<rparr>"
    by simp
  have u2: "?fa\<lparr>files := (files ?fa)(''output/output0.bin'' \<mapsto> [8, 0, 0, 0])\<rparr>
      = \<lparr>files = [''input/input0.bin'' \<mapsto> [3, 0, 0, 0], ''input/input1.bin'' \<mapsto> [5, 0, 0, 0],
          ''output/output0.bin'' \<mapsto> [8, 0, 0, 0]],
        can_mkdir = (\<lambda>p. True), can_create = (\<lambda>p. True), room = (\<lambda>p. 64), stream_buffer = 1024\<rparr>"
    by simp
  have c5: "resolve ''float32'' = Inr Float32 \<and> resolve ''int32'' = Inr Int32
      \<and> resolve ''Float32'' = Inl (UnsupportedDtype ''Float32'')"
    using main_dtype_dispatch [where tag = "''float32''", THEN conjunct1]
      main_dtype_dispatch [where tag = "''int32''", THEN conjunct2, THEN conjunct1]
      main_dtype_dispatch [where tag = "''Float32''", THEN conjunct2, THEN conjunct2, THEN conjunct1]
    by simp
  from c1 c2 c3 c4 c5 show ?thesis unfolding u1 u2 by (intro conjI) simp_all
qed

subsection \<open>The kernel and the run: claims\<close>

text \<open>
  \<^bold>\<open>C3, as stated, fails.\<close> For the shape \<open>(2 ^ 32, 0, 2 ^ 32)\<close> both operands are empty, of
  the lengths \<open>m * k\<close> and \<open>k * n\<close>. The size \<open>m * n = 2 ^ 64\<close> of the output wraps to
  \<open>0\<close>, the output vector is empty, and the first store of the kernel is outside it.
\<close>

theorem run_kernel_overflow_counterexample:
  "length ([] :: elem list) = unat (4294967296 :: int64) * unat (0 :: int64)
   \<and> length ([] :: elem list) = unat (0 :: int64) * unat (4294967296 :: int64)
   \<and> unat (4294967296 :: int64) * unat (4294967296 :: int64) = 2 ^ 64
   \<and> run_kernel (int32_t \<lparr>little_endian = True, fadd = (+), fmul = (*)\<rparr>) 1024
        \<lparr>m = 4294967296, k = 0, n = 4294967296\<rparr> [] [] = Inl OutOfBounds"
  by (simp add: run_kernel_def vector_fill_def matmul_kernel_def
      i_loop.simps [of _ _ _ _ _ _ _ 0] j_loop.simps [of _ _ _ _ _ _ _ 0]
      kk_loop.simps [of _ _ _ _ _ _ _ 0] sz_def int32_t_def)

text \<open>
  \<^bold>\<open>C3, as amended.\<close> For every element type, every shape whose sizes \<open>m * k\<close> and \<open>k * n\<close>
  are below \<open>2 ^ 64\<close> and whose output of \<open>m * n\<close> elements can be constructed (\<open>m * n\<close> is at
  most \<^verbatim>\<open>max_size()\<close> and the allocator supplies its bytes), and every pair of buffers of
  the lengths \<open>m * k\<close> and \<open>k * n\<close>: the kernel runs on a fresh output vector of \<open>m * n\<close>
  zeros, makes no access outside a buffer and yields an output of length \<open>m * n\<close> with
  \<open>c[i * n + j]\<close> the sum over \<open>p\<close> from \<open>0\<close> to \<open>k - 1\<close> of \<open>a[i * k + p] * b[p * n + j]\<close>,
  added up in \<open>T\<close> in this order. The arithmetic of \<open>T\<close> is a parameter, so this covers
  \<^verbatim>\<open>float\<close>; for \<^verbatim>\<open>int32_t\<close> the sum is the sum modulo \<open>2 ^ 32\<close>. On \<open>A = [1, 0, 0, 1]\<close>,
  \<open>B = [5, 6, 7, 8]\<close> and the shape \<open>(2, 2, 2)\<close> the result is \<open>[5, 6, 7, 8]\<close> when the four
  elements of the output can be allocated: for \<^verbatim>\<open>int32_t\<close>, and for every element type in
  which \<open>1 * x = x\<close>, \<open>0 * x = 0\<close>, \<open>0 + x = x\<close>, \<open>x + 0 = x\<close> hold at these values.
\<close>

theorem run_kernel_product:
  fixes T :: "'a elem_type" and U :: "'b elem_type"
  shows "(length a = unat (m shape) * unat (k shape)
        \<and> length b = unat (k shape) * unat (n shape)
        \<and> unat (m shape) * unat (k shape) < 2 ^ 64
        \<and> unat (k shape) * unat (n shape) < 2 ^ 64
        \<and> unat (m shape) * unat (n shape) \<le> max_size T
        \<and> unat (m shape) * unat (n shape) * sizeof T \<le> mem
      \<longrightarrow> run_kernel T mem shape a b =
            matmul_kernel T a b (replicate (unat (m shape) * unat (n shape)) (t_zero T))
              (unat (m shape)) (unat (k shape)) (unat (n shape))
        \<and> (\<exists>c. run_kernel T mem shape a b = Inr c
            \<and> length c = unat (m shape) * unat (n shape)
            \<and> (\<forall>i<unat (m shape). \<forall>j<unat (n shape).
                  c ! (i * unat (n shape) + j)
                    = dot T a b (unat (k shape)) (unat (n shape)) i j)))
    \<and> dot (int32_t P) a' b' K N i' j' = (\<Sum>p<K. a' ! (i' * K + p) * b' ! (p * N + j'))
    \<and> (16 \<le> mem'
      \<longrightarrow> run_kernel (int32_t P) mem' \<lparr>m = 2, k = 2, n = 2\<rparr> [1, 0, 0, 1] [5, 6, 7, 8]
            = Inr [5, 6, 7, 8])
    \<and> ((\<forall>x\<in>{va, vb, vc, vd}. t_mul U one x = x \<and> t_mul U (t_zero U) x = t_zero U
            \<and> t_add U (t_zero U) x = x \<and> t_add U x (t_zero U) = x)
        \<and> t_add U (t_zero U) (t_zero U) = t_zero U
        \<and> 4 \<le> max_size U \<and> 4 * sizeof U \<le> mem'
      \<longrightarrow> run_kernel U mem' \<lparr>m = 2, k = 2, n = 2\<rparr> [one, t_zero U, t_zero U, one] [va, vb, vc, vd]
            = Inr [va, vb, vc, vd])"
  using run_kernel_correct [of a shape b T mem] run_kernel_alloc [of shape T mem a b]
    dot_int32_sum [of P a' b' K N i' j']
    run_kernel_identity_int32 [of mem' P] run_kernel_identity [of va vb vc vd U one mem']
  by blast

theorem run_kernel_product_witness:
  "run_kernel (int32_t \<lparr>little_endian = True, fadd = (+), fmul = (*)\<rparr>) 1024
      \<lparr>m = 1, k = 2, n = 1\<rparr> [3, 4] [5, 6] = Inr [39]
   \<and> dot (int32_t \<lparr>little_endian = True, fadd = (+), fmul = (*)\<rparr>) [3, 4] [5, 6] 2 1 0 0 = 39
   \<and> dot (int32_t \<lparr>little_endian = True, fadd = (+), fmul = (*)\<rparr>)
        [65536, 1] [65536, 1] 2 1 0 0 = 1
   \<and> run_kernel (int32_t \<lparr>little_endian = True, fadd = (+), fmul = (*)\<rparr>) 1024
        \<lparr>m = 2, k = 2, n = 2\<rparr> [1, 0, 0, 1] [5, 6, 7, 8] = Inr [5, 6, 7, 8]"
proof -
  let ?P = "\<lparr>little_endian = True, fadd = (+), fmul = (*)\<rparr>"
  let ?sh = "\<lparr>m = 1, k = 2, n = 1 :: int64\<rparr>"
  have ms: "max_size (int32_t ?P) = 2305843009213693951"
    by (rule max_size_four) (simp add: int32_t_def)
  have h: "length [3, 4 :: elem] = unat (m ?sh) * unat (k ?sh)
        \<and> length [5, 6 :: elem] = unat (k ?sh) * unat (n ?sh)
        \<and> unat (m ?sh) * unat (k ?sh) < 2 ^ 64
        \<and> unat (k ?sh) * unat (n ?sh) < 2 ^ 64
        \<and> unat (m ?sh) * unat (n ?sh) \<le> max_size (int32_t ?P)
        \<and> unat (m ?sh) * unat (n ?sh) * sizeof (int32_t ?P) \<le> 1024"
    unfolding ms by (simp add: int32_t_def)
  have u: "[0..<2] = [0, Suc 0]" by (simp add: eval_nat_numeral)
  have d1: "dot (int32_t ?P) [3, 4] [5, 6] 2 1 0 0 = 39"
    by (simp add: dot_def int32_t_def u)
  have d2: "dot (int32_t ?P) [65536, 1] [65536, 1] 2 1 0 0 = 1"
    by (simp add: dot_def int32_t_def u)
  note main = run_kernel_product [where a = "[3, 4]" and shape = ?sh and b = "[5, 6]"
      and T = "int32_t ?P" and mem = 1024, THEN conjunct1]
  from mp [OF main h, THEN conjunct2]
  obtain c where r: "run_kernel (int32_t ?P) 1024 ?sh [3, 4] [5, 6] = Inr c" and l: "length c = 1"
    and v: "c ! 0 = dot (int32_t ?P) [3, 4] [5, 6] 2 1 0 0"
    by auto
  from l v d1 have c: "c = [39]" by (cases c) simp_all
  have g: "(\<forall>x\<in>{5, 6, 7, 8 :: elem}. t_mul (int32_t ?P) 1 x = x
        \<and> t_mul (int32_t ?P) (t_zero (int32_t ?P)) x = t_zero (int32_t ?P)
        \<and> t_add (int32_t ?P) (t_zero (int32_t ?P)) x = x
        \<and> t_add (int32_t ?P) x (t_zero (int32_t ?P)) = x)
      \<and> t_add (int32_t ?P) (t_zero (int32_t ?P)) (t_zero (int32_t ?P)) = t_zero (int32_t ?P)
      \<and> 4 \<le> max_size (int32_t ?P) \<and> 4 * sizeof (int32_t ?P) \<le> 1024"
    unfolding ms by (simp add: int32_t_def)
  note ident = run_kernel_product [where U = "int32_t ?P" and one = 1 and va = 5
      and vb = 6 and vc = 7 and vd = 8 and mem' = 1024,
      THEN conjunct2, THEN conjunct2, THEN conjunct2]
  from mp [OF ident g]
  have e: "run_kernel (int32_t ?P) 1024 \<lparr>m = 2, k = 2, n = 2\<rparr> [1, 0, 0, 1] [5, 6, 7, 8]
      = Inr [5, 6, 7, 8]"
    by (simp add: int32_t_def)
  from r c d1 d2 e show ?thesis by simp
qed

text \<open>
  \<^bold>\<open>C6, as stated, fails.\<close> For the shape \<open>(0, 2 ^ 32, 2 ^ 32)\<close> the product \<open>k * n\<close> is
  \<open>2 ^ 64\<close> and wraps to \<open>0\<close>: with two empty operand files the run passes the size
  check and succeeds, although the second operand has not \<open>k * n\<close> elements.
\<close>

theorem run_matmul_overflow_counterexample:
  "read_file (int32_t \<lparr>little_endian = True, fadd = (+), fmul = (*)\<rparr>)
     \<lparr>files = [''data/input0.bin'' \<mapsto> [], ''data/input1.bin'' \<mapsto> []], can_mkdir = (\<lambda>p. True),
       can_create = (\<lambda>p. True), room = (\<lambda>p. 64), stream_buffer = 1024\<rparr> ''data/input1.bin'' = Inr []
   \<and> length ([] :: elem list) \<noteq> unat (4294967296 :: int64) * unat (4294967296 :: int64)
   \<and> run_matmul (int32_t \<lparr>little_endian = True, fadd = (+), fmul = (*)\<rparr>) 1024
     \<lparr>files = [''data/input0.bin'' \<mapsto> [], ''data/input1.bin'' \<mapsto> []], can_mkdir = (\<lambda>p. True),
       can_create = (\<lambda>p. True), room = (\<lambda>p. 64), stream_buffer = 1024\<rparr>
     \<lparr>dtype = ''int32'', input0 = ''data/input0.bin'', input1 = ''data/input1.bin'',
       output0 = ''out/output0.bin'', shapes_json = ''0x4294967296,4294967296x4294967296''\<rparr>
     \<lparr>m = 0, k = 4294967296, n = 4294967296\<rparr>
   = (Inr (),
      \<lparr>files = [''data/input0.bin'' \<mapsto> [], ''data/input1.bin'' \<mapsto> [], ''out/output0.bin'' \<mapsto> []],
       can_mkdir = (\<lambda>p. True), can_create = (\<lambda>p. True), room = (\<lambda>p. 64), stream_buffer = 1024\<rparr>)
   \<and> parse_shapes ''0x4294967296,4294967296x4294967296''
       = Inr \<lparr>m = 0, k = 4294967296, n = 4294967296\<rparr>"
proof -
  let ?T = "int32_t \<lparr>little_endian = True, fadd = (+), fmul = (*)\<rparr>"
  let ?fs = "\<lparr>files = [''data/input0.bin'' \<mapsto> ([] :: byte list), ''data/input1.bin'' \<mapsto> []],
       can_mkdir = (\<lambda>p. True), can_create = (\<lambda>p. True), room = (\<lambda>p. 64), stream_buffer = 1024\<rparr>"
  have a: "read_file ?T ?fs ''data/input0.bin'' = Inr []"
    by (simp add: read_file_def istream_read_def int32_t_def elements_of_def)
  have b: "read_file ?T ?fs ''data/input1.bin'' = Inr []"
    by (simp add: read_file_def istream_read_def int32_t_def elements_of_def)
  have k: "run_kernel ?T 1024 \<lparr>m = 0, k = 4294967296, n = 4294967296\<rparr> [] [] = Inr []"
    by (simp add: run_kernel_def vector_fill_def matmul_kernel_def i_loop.simps [of _ _ _ _ _ _ _ 0])
  have w: "write_file ?T ?fs ''out/output0.bin'' []
      = (Inr (), ?fs\<lparr>files := (files ?fs)(''out/output0.bin'' \<mapsto> [])\<rparr>)"
    by (simp add: write_file_def ofstream_write_def bytes_of_def)
  have p: "parse_shapes ''0x4294967296,4294967296x4294967296''
       = Inr \<lparr>m = 0, k = 4294967296, n = 4294967296\<rparr>"
    by (simp add: parse_shapes_def extract_numbers_def is_digit_def digit_def)
  have r: "run_matmul ?T 1024 ?fs
     \<lparr>dtype = ''int32'', input0 = ''data/input0.bin'', input1 = ''data/input1.bin'',
       output0 = ''out/output0.bin'', shapes_json = ''0x4294967296,4294967296x4294967296''\<rparr>
     \<lparr>m = 0, k = 4294967296, n = 4294967296\<rparr>
     = (Inr (), ?fs\<lparr>files := (files ?fs)(''out/output0.bin'' \<mapsto> [])\<rparr>)"
    by (simp add: run_matmul_def a b k w)
  have f: "(files ?fs)(''out/output0.bin'' \<mapsto> [])
      = [''data/input0.bin'' \<mapsto> [], ''data/input1.bin'' \<mapsto> [], ''out/output0.bin'' \<mapsto> []]"
    by simp
  from b p r show ?thesis by (simp add: f)
qed

text \<open>
  \<^bold>\<open>C6, as amended.\<close> For every shape and every pair of decoded operands, the run fails
  with the \<open>SizeMismatchError\<close> "input sizes do not match shapes" whenever \<open>a.length\<close> is
  not \<open>m * k\<close> or \<open>b.length\<close> is not \<open>k * n\<close>, the products being the 64-bit products of
  the code (exact whenever they are below \<open>2 ^ 64\<close>). The failed run returns before the
  output vector exists and leaves the file system as it was.
\<close>

theorem run_matmul_size_check:
  fixes T :: "'a elem_type"
  assumes "read_file T fs (input0 opts) = Inr a"
    and "read_file T fs (input1 opts) = Inr b"
  shows "(length a \<noteq> unat (m shape * k shape) \<or> length b \<noteq> unat (k shape * n shape)
        \<longrightarrow> run_matmul T mem fs opts shape = (Inl InputSizesDoNotMatchShapes, fs)
          \<and> fails_with (fst (run_matmul T mem fs opts shape)) SizeMismatchError)
    \<and> (unat (m shape) * unat (k shape) < 2 ^ 64 \<and> unat (k shape) * unat (n shape) < 2 ^ 64
        \<and> (length a \<noteq> unat (m shape) * unat (k shape) \<or> length b \<noteq> unat (k shape) * unat (n shape))
        \<longrightarrow> run_matmul T mem fs opts shape = (Inl InputSizesDoNotMatchShapes, fs))"
  using assms by (auto simp: run_matmul_def Let_def fails_with_def unat_mult_exact)

theorem run_matmul_size_check_witness:
  "run_matmul (int32_t \<lparr>little_endian = True, fadd = (+), fmul = (*)\<rparr>) 1024
     \<lparr>files = [''data/input0.bin'' \<mapsto> [1, 0, 0, 0], ''data/input1.bin'' \<mapsto> [2, 0, 0, 0]], can_mkdir = (\<lambda>p. True),
       can_create = (\<lambda>p. True), room = (\<lambda>p. 64), stream_buffer = 1024\<rparr>
     \<lparr>dtype = ''int32'', input0 = ''data/input0.bin'', input1 = ''data/input1.bin'', output0 = ''out/output0.bin'',
       shapes_json = ''1x2,2x1''\<rparr>
     \<lparr>m = 1, k = 2, n = 1\<rparr>
   = (Inl InputSizesDoNotMatchShapes,
      \<lparr>files = [''data/input0.bin'' \<mapsto> [1, 0, 0, 0], ''data/input1.bin'' \<mapsto> [2, 0, 0, 0]], can_mkdir = (\<lambda>p. True),
       can_create = (\<lambda>p. True), room = (\<lambda>p. 64), stream_buffer = 1024\<rparr>)"
proof -
  let ?T = "int32_t \<lparr>little_endian = True, fadd = (+), fmul = (*)\<rparr>"
  let ?fs = "\<lparr>files = [''data/input0.bin'' \<mapsto> [1, 0, 0, 0 :: byte], ''data/input1.bin'' \<mapsto> [2, 0, 0, 0]],
       can_mkdir = (\<lambda>p. True), can_create = (\<lambda>p. True), room = (\<lambda>p. 64), stream_buffer = 1024\<rparr>"
  let ?opts = "\<lparr>dtype = ''int32'', input0 = ''data/input0.bin'', input1 = ''data/input1.bin'', output0 = ''out/output0.bin'',
       shapes_json = ''1x2,2x1''\<rparr>"
  let ?sh = "\<lparr>m = 1, k = 2, n = 1 :: int64\<rparr>"
  have a: "read_file ?T ?fs (input0 ?opts) = Inr [1]"
    by (simp add: read_file_def istream_read_def int32_t_def elements_of_def native_word_def)
  have b: "read_file ?T ?fs (input1 ?opts) = Inr [2]"
    by (simp add: read_file_def istream_read_def int32_t_def elements_of_def native_word_def)
  have ne: "length [1 :: elem] \<noteq> unat (m ?sh * k ?sh) \<or> length [2 :: elem] \<noteq> unat (k ?sh * n ?sh)"
    by simp
  from run_matmul_size_check [OF a b, of ?sh 1024] ne show ?thesis by simp
qed

end
